theory Spec2Isabelle
  imports Main
begin

section \<open>Values exchanged with the provider\<close>

text \<open>
  The client of \<^verbatim>\<open>src/tiingo_rest_client.py\<close> talks to the provider over HTTP and hands
  the bodies to \<^verbatim>\<open>requests\<close> and \<^verbatim>\<open>pandas\<close>. A decoded JSON body is a value of
  \<open>json\<close>; a Python dict keeps its insertion order, so an object is an association list.
\<close>

datatype json =
    JNull
  | JBool bool
  | JNum int
  | JStr string
  | JArr "json list"
  | JObj "(string \<times> json) list"

text \<open>
  An f-string is kept as its pieces: literal text, and the values it interpolates with
  \<^verbatim>\<open>repr\<close>.
\<close>

datatype piece = Str string | Repr json

type_synonym message = "piece list"

text \<open>
  The exceptions that leave the client. \<open>TiingoError\<close> is the class of the source; the
  others are raised by the libraries it calls: a missing dict key or column label
  (\<open>KeyError\<close>), subscripting a JSON value that is not an object (\<open>TypeError\<close>), a body
  that is not JSON (\<open>JSONDecodeError\<close>), a list of column labels of the wrong length
  (\<open>ValueError\<close>), a CSV body that pandas cannot read (\<open>ParserError\<close>).
\<close>

datatype error =
    TiingoError message
  | KeyError string
  | TypeError
  | JSONDecodeError
  | ValueError
  | ParserError

type_synonym headers = "(string \<times> string) list"

text \<open>
  A pandas table, by columns: the name of the index (\<open>None\<close> for the positional index of
  a freshly parsed table), the index values, and the labelled columns.
\<close>

record table =
  tbl_index_name :: "string option"
  tbl_index :: "json list"
  tbl_columns :: "(string \<times> json list) list"

text \<open>
  A response of the provider: its body text, and what the three decoders used by the
  source make of that text. \<open>json_body\<close> is \<^verbatim>\<open>r.json()\<close>, \<open>read_json\<close> is
  \<^verbatim>\<open>pd.read_json(StringIO(r.text))\<close>, \<open>read_csv\<close> is \<^verbatim>\<open>pd.read_csv(StringIO(r.text))\<close>;
  each is \<open>None\<close> where the decoder raises.
\<close>

record response =
  body :: string
  json_body :: "json option"
  read_json :: "table option"
  read_csv :: "table option"

text \<open>
  The interpreter: \<^verbatim>\<open>date.fromisoformat\<close> accepts only \<^verbatim>\<open>YYYY-MM-DD\<close> before Python 3.11
  (\<open>Py37\<close>: 3.7 to 3.10) and further ISO 8601 forms from 3.11 on (\<open>Py311\<close>).
\<close>

datatype python = Py37 | Py311

text \<open>
  The world outside the client: the interpreter, the provider (the response to a GET of
  a URL), and the headers a new \<^verbatim>\<open>requests.Session\<close> starts with.
\<close>

record env =
  interpreter :: python
  provider :: "string \<Rightarrow> response"
  session_headers :: headers

text \<open>
  The state the source reads and writes: the instance attribute \<^verbatim>\<open>self._tii_headers\<close>,
  the GET requests issued so far (URL and headers sent, oldest first), and what was
  printed.
\<close>

record state =
  tii_headers :: headers
  requests :: "(string \<times> headers) list"
  stdout :: "message list"

definition print :: "message \<Rightarrow> state \<Rightarrow> state" where
  "print m st = st\<lparr>stdout := stdout st @ [m]\<rparr>"

definition get :: "env \<Rightarrow> string \<Rightarrow> headers \<Rightarrow> state \<Rightarrow> response \<times> state" where
  "get e url hs st = (provider e url, st\<lparr>requests := requests st @ [(url, hs)]\<rparr>)"

section \<open>Python strings and dicts\<close>

text \<open>The characters from \<open>lo\<close> to \<open>hi\<close>, by code point.\<close>

definition in_range :: "char \<Rightarrow> char \<Rightarrow> char \<Rightarrow> bool" where
  "in_range lo hi c \<longleftrightarrow> (of_char lo :: nat) \<le> of_char c \<and> (of_char c :: nat) \<le> of_char hi"

text \<open>\<^verbatim>\<open>sep.join(xs)\<close>\<close>

fun join :: "string \<Rightarrow> string list \<Rightarrow> string" where
  "join sep [] = []"
| "join sep [x] = x"
| "join sep (x # y # ys) = x @ sep @ join sep (y # ys)"

text \<open>
  \<^verbatim>\<open>s.replace(old, new)\<close>: every occurrence of \<open>old\<close>, found from left to right
  without overlap, becomes \<open>new\<close>; an empty \<open>old\<close> matches before every character and at
  the end.
\<close>

fun between :: "string \<Rightarrow> string \<Rightarrow> string" where
  "between new [] = new"
| "between new (c # s) = new @ c # between new s"

function replace :: "string \<Rightarrow> string \<Rightarrow> string \<Rightarrow> string" where
  "replace s old new =
     (if old = [] then between new s
      else if s = [] then []
      else if take (length old) s = old then new @ replace (drop (length old) s) old new
      else hd s # replace (tl s) old new)"
  by pat_completeness auto
termination
  by (relation "measure (\<lambda>(s, old, new). length s)") auto

declare replace.simps [simp del]

text \<open>\<^verbatim>\<open>s.upper()\<close>, on ASCII letters.\<close>

definition to_upper :: "char \<Rightarrow> char" where
  "to_upper c =
     (if in_range (CHR ''a'') (CHR ''z'') c then char_of (of_char c - (32::nat)) else c)"

definition upper :: "string \<Rightarrow> string" where
  "upper s = map to_upper s"

text \<open>\<^verbatim>\<open>str(t)\<close> of a tuple of plain strings.\<close>

definition str_tuple :: "string list \<Rightarrow> string" where
  "str_tuple xs =
     ''('' @ join '', '' (map (\<lambda>x. [CHR 0x27] @ x @ [CHR 0x27]) xs)
       @ (if length xs = 1 then '','' else []) @ '')''"

text \<open>\<^verbatim>\<open>d.update(other)\<close>: a key already present keeps its place and takes the new value.\<close>

fun dict_set :: "string \<Rightarrow> string \<Rightarrow> headers \<Rightarrow> headers" where
  "dict_set k v [] = [(k, v)]"
| "dict_set k v ((k', v') # d) = (if k' = k then (k, v) # d else (k', v') # dict_set k v d)"

fun dict_update :: "headers \<Rightarrow> headers \<Rightarrow> headers" where
  "dict_update d [] = d"
| "dict_update d ((k, v) # other) = dict_update (dict_set k v d) other"

section \<open>Class constants\<close>

definition tii_eod :: string where
  "tii_eod = ''https://api.tiingo.com/tiingo/daily/''"

definition tii_iex :: string where
  "tii_iex = ''https://api.tiingo.com/iex/''"

definition tii_eod_cols :: "string list" where
  "tii_eod_cols = [''open'', ''high'', ''low'', ''close'', ''volume'', ''adjOpen'',
     ''adjHigh'', ''adjLow'', ''adjClose'', ''adjVolume'', ''divCash'', ''splitFactor'']"

definition tii_iex_hist_cols :: "string list" where
  "tii_iex_hist_cols = [''open'', ''high'', ''low'', ''close'', ''volume'']"

definition tii_iex_last_cols :: "string list" where
  "tii_iex_last_cols = [''timestamp'', ''quoteTimestamp'', ''lastSaleTimestamp'', ''last'',
     ''lastSize'', ''tngoLast'', ''prevClose'', ''open'', ''high'', ''low'', ''mid'',
     ''volume'', ''bidSize'', ''bidPrice'', ''askSize'', ''askPrice'']"

definition tii_resample_freqs :: "string list" where
  "tii_resample_freqs = [''daily'', ''weekly'', ''monthly'', ''annually'']"

section \<open>Column validation\<close>

definition endpoint_warning :: message where
  "endpoint_warning = [Str (''WARNING: could not proceed with column names validation. ''
     @ ''Wil return all available columns from Tiingo.'')]"

definition column_warning :: "string \<Rightarrow> message" where
  \<open>column_warning column = [Str (''WARNING: column name "'' @ column @ ''" is invalid and ''
     @ ''was removed from list of columns.'')]\<close>

text \<open>The loop of \<^verbatim>\<open>_validate_cols\<close> over the candidates, \<open>valid_columns\<close> being its list.\<close>

fun select_valid :: "string list \<Rightarrow> string list \<Rightarrow> string list \<Rightarrow> state \<Rightarrow> string list \<times> state" where
  "select_valid valid_names [] valid_columns st = (valid_columns, st)"
| "select_valid valid_names (column # columns) valid_columns st =
     (if column \<in> set valid_names
      then select_valid valid_names columns (valid_columns @ [column]) st
      else select_valid valid_names columns valid_columns (print (column_warning column) st))"

definition validate_cols :: "string \<Rightarrow> string list \<Rightarrow> state \<Rightarrow> string list \<times> state" where
  "validate_cols endpoint columns st =
     (if endpoint = ''eod'' then select_valid tii_eod_cols columns [] st
      else if endpoint = ''iex_last'' then select_valid tii_iex_last_cols columns [] st
      else if endpoint = ''iex_hist'' then select_valid tii_iex_hist_cols columns [] st
      else ([], print endpoint_warning st))"

text \<open>The whitelist the specification attaches to each endpoint identifier.\<close>

definition whitelist :: "string \<Rightarrow> string list option" where
  "whitelist endpoint =
     (if endpoint = ''eod'' then Some tii_eod_cols
      else if endpoint = ''iex_last'' then Some tii_iex_last_cols
      else if endpoint = ''iex_hist'' then Some tii_iex_hist_cols
      else None)"

section \<open>Regular expressions\<close>

text \<open>
  The part of Python's \<^verbatim>\<open>re\<close> syntax that the source uses: a character class given as a
  range, sequence, alternation and repetition. \<open>Zero\<close> matches nothing and \<open>One\<close> the
  empty string; they only arise while matching.
\<close>

datatype rexp =
    Zero
  | One
  | Range char char
  | Seq rexp rexp
  | Alt rexp rexp
  | Star rexp

definition Plus :: "rexp \<Rightarrow> rexp" where
  "Plus r = Seq r (Star r)"

fun lit :: "string \<Rightarrow> rexp" where
  "lit [] = One"
| "lit (c # cs) = Seq (Range c c) (lit cs)"

fun nullable :: "rexp \<Rightarrow> bool" where
  "nullable Zero = False"
| "nullable One = True"
| "nullable (Range lo hi) = False"
| "nullable (Seq r s) = (nullable r \<and> nullable s)"
| "nullable (Alt r s) = (nullable r \<or> nullable s)"
| "nullable (Star r) = True"

text \<open>What is left of \<open>r\<close> to match once the character \<open>c\<close> has been read.\<close>

fun deriv :: "char \<Rightarrow> rexp \<Rightarrow> rexp" where
  "deriv c Zero = Zero"
| "deriv c One = Zero"
| "deriv c (Range lo hi) = (if in_range lo hi c then One else Zero)"
| "deriv c (Seq r s) =
     (if nullable r then Alt (Seq (deriv c r) s) (deriv c s) else Seq (deriv c r) s)"
| "deriv c (Alt r s) = Alt (deriv c r) (deriv c s)"
| "deriv c (Star r) = Seq (deriv c r) (Star r)"

fun matches :: "rexp \<Rightarrow> string \<Rightarrow> bool" where
  "matches r [] = nullable r"
| "matches r (c # cs) = matches (deriv c r) cs"

text \<open>
  \<^verbatim>\<open>_tii_resample_pattern = "\A^[0-9]+(min|hour)\Z"\<close>. The anchors are not part of
  \<open>rexp\<close>: \<^verbatim>\<open>\A\<close> and \<^verbatim>\<open>^\<close> assert the start of the string, where \<^verbatim>\<open>re.match\<close> begins
  anyway, and \<^verbatim>\<open>\Z\<close> asserts its very end, so that \<^verbatim>\<open>re.match\<close> with this pattern
  succeeds exactly when the whole string matches \<^verbatim>\<open>[0-9]+(min|hour)\<close>.
\<close>

definition tii_resample_pattern :: rexp where
  "tii_resample_pattern =
     Seq (Plus (Range (CHR ''0'') (CHR ''9''))) (Alt (lit ''min'') (lit ''hour''))"

definition re_match :: "rexp \<Rightarrow> string \<Rightarrow> bool" where
  "re_match pattern s = matches pattern s"

text \<open>The strings a regular expression denotes, to reason about \<open>matches\<close>.\<close>

inductive_set star :: "string set \<Rightarrow> string set" for A :: "string set" where
  star_empty: "[] \<in> star A"
| star_step: "u \<in> A \<Longrightarrow> v \<in> star A \<Longrightarrow> u @ v \<in> star A"

fun lang :: "rexp \<Rightarrow> string set" where
  "lang Zero = {}"
| "lang One = {[]}"
| "lang (Range lo hi) = {[c] | c. in_range lo hi c}"
| "lang (Seq r s) = {u @ v | u v. u \<in> lang r \<and> v \<in> lang s}"
| "lang (Alt r s) = lang r \<union> lang s"
| "lang (Star r) = star (lang r)"

definition is_digit :: "char \<Rightarrow> bool" where
  "is_digit c = in_range (CHR ''0'') (CHR ''9'') c"

section \<open>Date validation\<close>

text \<open>
  \<^verbatim>\<open>date.fromisoformat\<close> belongs to the interpreter, not to the repository. It is
  modelled after CPython's implementation: \<open>parse_digits\<close> reads a fixed number of decimal
  digits, the parsed fields go through the range checks of the \<^verbatim>\<open>date\<close> constructor
  (\<open>new_date\<close>), and week dates are converted through the proleptic Gregorian ordinal.
\<close>

definition digit_val :: "char \<Rightarrow> int" where
  "digit_val c = int (of_char c) - 48"

fun parse_digits :: "nat \<Rightarrow> string \<Rightarrow> int \<Rightarrow> (int \<times> string) option" where
  "parse_digits 0 p var = Some (var, p)"
| "parse_digits (Suc n) [] var = None"
| "parse_digits (Suc n) (c # p) var =
     (if is_digit c then parse_digits n p (var * 10 + digit_val c) else None)"

datatype date = Date int int int

definition is_leap :: "int \<Rightarrow> bool" where
  "is_leap y \<longleftrightarrow> y mod 4 = 0 \<and> (y mod 100 \<noteq> 0 \<or> y mod 400 = 0)"

definition days_in_month_tab :: "int list" where
  "days_in_month_tab = [0, 31, 28, 31, 30, 31, 30, 31, 31, 30, 31, 30, 31]"

definition days_before_month_tab :: "int list" where
  "days_before_month_tab = [0, 0, 31, 59, 90, 120, 151, 181, 212, 243, 273, 304, 334]"

text \<open>Both tables are read at a month between 1 and 12 only.\<close>

definition days_in_month :: "int \<Rightarrow> int \<Rightarrow> int" where
  "days_in_month y m = (if m = 2 \<and> is_leap y then 29 else days_in_month_tab ! nat m)"

definition days_before_month :: "int \<Rightarrow> int \<Rightarrow> int" where
  "days_before_month y m =
     days_before_month_tab ! nat m + (if m > 2 \<and> is_leap y then 1 else 0)"

definition days_before_year :: "int \<Rightarrow> int" where
  "days_before_year year = (let y = year - 1 in y * 365 + y div 4 - y div 100 + y div 400)"

definition ymd_to_ord :: "int \<Rightarrow> int \<Rightarrow> int \<Rightarrow> int" where
  "ymd_to_ord y m d = days_before_year y + days_before_month y m + d"

text \<open>The constructor of \<^verbatim>\<open>date\<close>: \<^verbatim>\<open>MINYEAR = 1\<close>, \<^verbatim>\<open>MAXYEAR = 9999\<close>.\<close>

definition new_date :: "int \<times> int \<times> int \<Rightarrow> date option" where
  "new_date ymd = (case ymd of (y, m, d) \<Rightarrow>
     if y < 1 \<or> 9999 < y then None
     else if m < 1 \<or> 12 < m then None
     else if d < 1 \<or> days_in_month y m < d then None
     else Some (Date y m d))"

text \<open>\<^verbatim>\<open>_ord2ymd\<close>: the date of a proleptic Gregorian ordinal, 1 being 0001-01-01.\<close>

definition ord_to_ymd :: "int \<Rightarrow> int \<times> int \<times> int" where
  "ord_to_ymd ordinal =
     (let n = ordinal - 1;
          n400 = n div 146097; n = n mod 146097;
          n100 = n div 36524; n = n mod 36524;
          n4 = n div 1461; n = n mod 1461;
          n1 = n div 365; n = n mod 365;
          y = n400 * 400 + 1 + n100 * 100 + n4 * 4 + n1
      in if n1 = 4 \<or> n100 = 4 then (y - 1, 12, 31)
         else
           let leapyear = (n1 = 3 \<and> (n4 \<noteq> 24 \<or> n100 = 3));
               m = (n + 50) div 32;
               preceding = days_before_month_tab ! nat m + (if m > 2 \<and> leapyear then 1 else 0)
           in if preceding > n
              then let m' = m - 1;
                       preceding' = preceding
                         - (days_in_month_tab ! nat m' + (if m' = 2 \<and> leapyear then 1 else 0))
                   in (y, m', n - preceding' + 1)
              else (y, m, n - preceding + 1))"

definition iso_week1_monday :: "int \<Rightarrow> int" where
  "iso_week1_monday y =
     (let first_day = ymd_to_ord y 1 1;
          first_weekday = (first_day + 6) mod 7;
          week1_monday = first_day - first_weekday
      in if first_weekday > 3 then week1_monday + 7 else week1_monday)"

text \<open>
  \<^verbatim>\<open>_isoweek_to_gregorian\<close>: week 53 exists in a year that starts on a Thursday, and
  in a leap year that starts on a Wednesday.
\<close>

definition iso_to_ymd :: "int \<Rightarrow> int \<Rightarrow> int \<Rightarrow> (int \<times> int \<times> int) option" where
  "iso_to_ymd iso_year iso_week iso_day =
     (if iso_year < 1 \<or> 9999 < iso_year then None
      else if \<not> (0 < iso_week \<and> iso_week < 53) \<and>
              \<not> (iso_week = 53 \<and>
                 (let first_weekday = ymd_to_ord iso_year 1 1 mod 7
                  in first_weekday = 4 \<or> (first_weekday = 3 \<and> is_leap iso_year)))
      then None
      else if \<not> (0 < iso_day \<and> iso_day < 8) then None
      else Some (ord_to_ymd (iso_week1_monday iso_year + ((iso_week - 1) * 7 + (iso_day - 1)))))"

definition starts_with :: "char \<Rightarrow> string \<Rightarrow> bool" where
  "starts_with c p = (case p of [] \<Rightarrow> False | x # _ \<Rightarrow> x = c)"

text \<open>Python 3.7 to 3.10: \<^verbatim>\<open>YYYY-MM-DD\<close>, ten characters.\<close>

definition parse_isoformat_date_py37 :: "string \<Rightarrow> (int \<times> int \<times> int) option" where
  "parse_isoformat_date_py37 dtstr =
     (case parse_digits 4 dtstr 0 of
        None \<Rightarrow> None
      | Some (y, p) \<Rightarrow>
          if \<not> starts_with (CHR ''-'') p then None
          else (case parse_digits 2 (tl p) 0 of
                  None \<Rightarrow> None
                | Some (m, p) \<Rightarrow>
                    if \<not> starts_with (CHR ''-'') p then None
                    else (case parse_digits 2 (tl p) 0 of
                            None \<Rightarrow> None
                          | Some (d, p) \<Rightarrow> Some (y, m, d))))"

text \<open>
  Python 3.11 and later: the separators are optional (used for both fields or for none),
  and a week date \<^verbatim>\<open>W\<close>ww with an optional day of the week is accepted. The parser
  stops after the day; the caller has checked the length only.
\<close>

definition parse_isoformat_date_py311 :: "string \<Rightarrow> (int \<times> int \<times> int) option" where
  "parse_isoformat_date_py311 dtstr =
     (case parse_digits 4 dtstr 0 of None \<Rightarrow> None | Some (y, p) \<Rightarrow>
      let uses_separator = starts_with (CHR ''-'') p;
          p = (if uses_separator then tl p else p)
      in if starts_with (CHR ''W'') p
         then (case parse_digits 2 (tl p) 0 of None \<Rightarrow> None | Some (iso_week, p) \<Rightarrow>
               if p \<noteq> []
               then if uses_separator \<and> \<not> starts_with (CHR ''-'') p then None
                    else (case parse_digits 1 (if uses_separator then tl p else p) 0 of
                            None \<Rightarrow> None
                          | Some (iso_day, p) \<Rightarrow> iso_to_ymd y iso_week iso_day)
               else iso_to_ymd y iso_week 1)
         else (case parse_digits 2 p 0 of None \<Rightarrow> None | Some (m, p) \<Rightarrow>
               if uses_separator \<and> \<not> starts_with (CHR ''-'') p then None
               else (case parse_digits 2 (if uses_separator then tl p else p) 0 of
                       None \<Rightarrow> None
                     | Some (d, p) \<Rightarrow> Some (y, m, d))))"

definition fromisoformat :: "python \<Rightarrow> string \<Rightarrow> date option" where
  "fromisoformat v date_string =
     (case v of
        Py37 \<Rightarrow>
          if length date_string = 10
          then (case parse_isoformat_date_py37 date_string of
                  None \<Rightarrow> None | Some ymd \<Rightarrow> new_date ymd)
          else None
      | Py311 \<Rightarrow>
          if length date_string = 7 \<or> length date_string = 8 \<or> length date_string = 10
          then (case parse_isoformat_date_py311 date_string of
                  None \<Rightarrow> None | Some ymd \<Rightarrow> new_date ymd)
          else None)"

text \<open>\<^verbatim>\<open>_is_valid_date\<close>: the bare \<^verbatim>\<open>except\<close> turns every failure of the parser into False.\<close>

definition is_valid_date :: "python \<Rightarrow> string \<Rightarrow> bool" where
  "is_valid_date v str_date =
     (if str_date = [] then True
      else (case fromisoformat v str_date of None \<Rightarrow> False | Some d \<Rightarrow> True))"

section \<open>Tables\<close>

text \<open>
  \<^verbatim>\<open>px.set_index(label, inplace=True)\<close>: the column becomes the index; a label that is
  not a column raises \<^verbatim>\<open>KeyError\<close>.
\<close>

definition set_index :: "string \<Rightarrow> table \<Rightarrow> error + table" where
  "set_index label px =
     (case map_of (tbl_columns px) label of
        None \<Rightarrow> Inl (KeyError label)
      | Some vals \<Rightarrow>
          Inr (px\<lparr>tbl_index_name := Some label, tbl_index := vals,
                 tbl_columns := filter (\<lambda>(l, v). l \<noteq> label) (tbl_columns px)\<rparr>))"

text \<open>
  What the public operations return. The two concatenations of pandas are kept as they
  are called: \<open>Side_by_side labels data\<close> is \<^verbatim>\<open>pd.concat(data, axis=1)\<close>, whose columns
  are all the columns of all the tables, labelled \<open>labels\<close>; \<open>Stacked keys labels data\<close>
  is \<^verbatim>\<open>pd.concat(data, keys=keys, names=["ticker"])\<close>, the rows of the tables one
  below the other, each table's rows under its key in a new outer index level named
  \<^verbatim>\<open>ticker\<close>.
\<close>

datatype dataframe =
    Empty_frame
  | Frame table
  | Side_by_side "string list" "table list"
  | Stacked "string list" "string list" "table list"

definition labels_of :: "table \<Rightarrow> string list" where
  "labels_of px = map fst (tbl_columns px)"

definition concat_axis1 :: "table list \<Rightarrow> dataframe" where
  "concat_axis1 data = Side_by_side (concat (map labels_of data)) data"

definition concat_keys :: "string list \<Rightarrow> table list \<Rightarrow> dataframe" where
  "concat_keys keys data = Stacked keys (remdups (concat (map labels_of data))) data"



text \<open>
  \<^verbatim>\<open>df.columns = labels\<close>: pandas raises \<^verbatim>\<open>ValueError\<close> unless there is one label for
  each column.
\<close>

fun set_columns :: "string list \<Rightarrow> dataframe \<Rightarrow> error + dataframe" where
  "set_columns labels Empty_frame = (if labels = [] then Inr Empty_frame else Inl ValueError)"
| "set_columns labels (Frame px) =
     (if length labels = length (tbl_columns px)
      then Inr (Frame (px\<lparr>tbl_columns := zip labels (map snd (tbl_columns px))\<rparr>))
      else Inl ValueError)"
| "set_columns labels (Side_by_side old data) =
     (if length labels = length old then Inr (Side_by_side labels data) else Inl ValueError)"
| "set_columns labels (Stacked keys old data) =
     (if length labels = length old then Inr (Stacked keys labels data) else Inl ValueError)"

section \<open>The client\<close>

text \<open>\<^verbatim>\<open>r["message"]\<close> on a decoded body.\<close>

definition subscript :: "json \<Rightarrow> string \<Rightarrow> error + json" where
  "subscript r key =
     (case r of
        JObj kvs \<Rightarrow> (case map_of kvs key of None \<Rightarrow> Inl (KeyError key) | Some v \<Rightarrow> Inr v)
      | _ \<Rightarrow> Inl TypeError)"

definition rejected_msg :: "string \<Rightarrow> json \<Rightarrow> message" where
  \<open>rejected_msg token r =
     [Str (''Tiingo rejected Auth Token "'' @ token @ ''".'' @ [CHR 0x0A] @ ''Tiingo response: ''),
      Repr r]\<close>

text \<open>\<^verbatim>\<open>__init__\<close>\<close>

definition init :: "env \<Rightarrow> string \<Rightarrow> state \<Rightarrow> (error + unit) \<times> state" where
  "init e token st =
     (let st = st\<lparr>tii_headers := [(''Content-Type'', ''application/json''),
                                   (''Authorization'', ''Token '' @ token)]\<rparr>;
          (resp, st) = get e (''https://api.tiingo.com/api/test?token='' @ token) (tii_headers st) st
      in case json_body resp of
           None \<Rightarrow> (Inl JSONDecodeError, st)
         | Some r \<Rightarrow>
             (case subscript r ''message'' of
                Inl err \<Rightarrow> (Inl err, st)
              | Inr m \<Rightarrow>
                  if m = JStr ''Auth Token was not correct''
                  then (Inl (TiingoError (rejected_msg token r)), st)
                  else (Inr (), st)))"

definition build_pre_query :: "string \<Rightarrow> string list \<Rightarrow> string \<Rightarrow> string \<Rightarrow> string \<Rightarrow> string" where
  "build_pre_query endpoint columns start end' resample =
     (let format = ''format=json'';
          cols = (if columns \<noteq> [] then ''&columns='' @ join '','' columns else []);
          freq = ''&resampleFreq='' @ resample;
          start_date = (if start \<noteq> [] then ''&startDate='' @ start else []);
          end_date = (if end' \<noteq> [] then ''&endDate='' @ end' else [])
      in endpoint @ ''ticker/prices?'' @ format @ freq @ cols @ start_date @ end_date)"

definition get_stock_metadata :: "env \<Rightarrow> string \<Rightarrow> state \<Rightarrow> (error + json) \<times> state" where
  "get_stock_metadata e ticker st =
     (let tii_request = tii_eod @ ticker;
          (r, st) = get e tii_request (tii_headers st) st
      in case json_body r of None \<Rightarrow> (Inl JSONDecodeError, st) | Some j \<Rightarrow> (Inr j, st))"

text \<open>The argument \<^verbatim>\<open>tickers: Union[str, Sequence[str]]\<close>.\<close>

datatype tickers = Ticker string | Tickers "string list"

definition as_list :: "tickers \<Rightarrow> string list" where
  "as_list tickers = (case tickers of Ticker t \<Rightarrow> [t] | Tickers ts \<Rightarrow> ts)"

definition invalid_frequency_msg :: "string \<Rightarrow> message" where
  \<open>invalid_frequency_msg frequency =
     [Str (''Invalid resample frequency: "'' @ frequency @ ''".'' @ [CHR 0x0A]
        @ [CHR 0x09] @ ''Valid values:'' @ [CHR 0x0A]
        @ [CHR 0x09] @ '' - End of day data: '' @ str_tuple tii_resample_freqs @ [CHR 0x0A]
        @ [CHR 0x09] @ '' - Intraday data: 5min, 15min, 1hour, 4hour, etc.'')]\<close>

definition invalid_date_msg :: message where
  \<open>invalid_date_msg = [Str ''Invalid date format. Valid format is: "YYYY-MM-DD"'']\<close>

definition ticker_warning :: "string \<Rightarrow> json \<Rightarrow> message" where
  \<open>ticker_warning ticker j =
     [Str (''WARNING: request for "'' @ upper ticker @ ''" returned ''
        @ ''an error and was removed from list of tickers.''
        @ [CHR 0x0A] @ ''Tiingo response: ''),
      Repr j, Str [CHR 0x0A]]\<close>

text \<open>
  \<^verbatim>\<open>get_stock_hist\<close>, lines 180 to 197: the resample frequency selects the endpoint
  and the whitelist the columns are validated against, or the call is aborted.
\<close>

definition choose_endpoint ::
  "string \<Rightarrow> string list \<Rightarrow> state \<Rightarrow> (error + string \<times> string list) \<times> state" where
  "choose_endpoint frequency columns st =
     (if re_match tii_resample_pattern frequency
      then (let (valid_columns, st) = validate_cols ''iex_hist'' columns st
            in (Inr (tii_iex, valid_columns), st))
      else if frequency \<in> set tii_resample_freqs
      then (let (valid_columns, st) = validate_cols ''eod'' columns st
            in (Inr (tii_eod, valid_columns), st))
      else (Inl (TiingoError (invalid_frequency_msg frequency)), st))"

text \<open>
  Lines 216 to 231: one request for each ticker, through the session \<open>s\<close>. A body that
  \<^verbatim>\<open>pd.read_json\<close> rejects is reported, and the report decodes the body with
  \<^verbatim>\<open>r.json()\<close>, which raises inside the handler when the body is not JSON. The
  \<^verbatim>\<open>else\<close> branch is outside the \<^verbatim>\<open>try\<close>: a table without a \<^verbatim>\<open>date\<close> column raises.
\<close>

fun fetch ::
  "env \<Rightarrow> string \<Rightarrow> headers \<Rightarrow> string list \<Rightarrow> table list \<Rightarrow> string list \<Rightarrow> state
     \<Rightarrow> (error + table list \<times> string list) \<times> state" where
  "fetch e tii_request s [] data valid_tickers st = (Inr (data, valid_tickers), st)"
| "fetch e tii_request s (ticker # tickers) data valid_tickers st =
     (let (r, st) = get e (replace tii_request ''ticker'' ticker) s st
      in case read_json r of
           None \<Rightarrow>
             (case json_body r of
                None \<Rightarrow> (Inl JSONDecodeError, st)
              | Some j \<Rightarrow>
                  fetch e tii_request s tickers data valid_tickers (print (ticker_warning ticker j) st))
         | Some px \<Rightarrow>
             (case set_index ''date'' px of
                Inl err \<Rightarrow> (Inl err, st)
              | Inr px \<Rightarrow> fetch e tii_request s tickers (data @ [px]) (valid_tickers @ [ticker]) st))"

text \<open>Lines 233 to 248: the composition of the result.\<close>

definition compose :: "string list \<Rightarrow> table list \<Rightarrow> string list \<Rightarrow> error + dataframe" where
  "compose columns data valid_tickers =
     (if length data = 0 then Inr Empty_frame
      else if length data = 1 then Inr (Frame (data ! 0))
      else if length columns = 1 then set_columns valid_tickers (concat_axis1 data)
      else Inr (concat_keys valid_tickers data))"

definition get_stock_hist ::
  "env \<Rightarrow> tickers \<Rightarrow> string \<Rightarrow> string \<Rightarrow> string \<Rightarrow> string list \<Rightarrow> state
     \<Rightarrow> (error + dataframe) \<times> state" where
  "get_stock_hist e tickers frequency start end' columns st =
     (let tickers = as_list tickers
      in case choose_endpoint frequency columns st of
           (Inl err, st) \<Rightarrow> (Inl err, st)
         | (Inr (end_point, valid_columns), st) \<Rightarrow>
             if \<not> is_valid_date (interpreter e) start \<or> \<not> is_valid_date (interpreter e) end'
             then (Inl (TiingoError invalid_date_msg), st)
             else
               let tii_request = build_pre_query end_point valid_columns start end' frequency;
                   s = dict_update (session_headers e) (tii_headers st)
               in (case fetch e tii_request s tickers [] [] st of
                     (Inl err, st) \<Rightarrow> (Inl err, st)
                   | (Inr (data, valid_tickers), st) \<Rightarrow> (compose columns data valid_tickers, st)))"

text \<open>
  \<^verbatim>\<open>pd.read_csv(..., index_col="ticker")\<close> raises \<^verbatim>\<open>ValueError\<close> when the body has no
  such column.
\<close>

definition get_stock_last ::
  "env \<Rightarrow> tickers \<Rightarrow> string list \<Rightarrow> state \<Rightarrow> (error + dataframe) \<times> state" where
  "get_stock_last e tickers columns st =
     (let tickers = as_list tickers;
          tickers_str = join '','' tickers;
          http_req = tii_iex @ ''?tickers='' @ tickers_str @ ''&format=csv'';
          (valid_columns, st) = validate_cols ''iex_last'' columns st;
          http_req = (if valid_columns \<noteq> []
                      then http_req @ ''&columns='' @ join '','' valid_columns else http_req);
          (r, st) = get e http_req (tii_headers st) st
      in case read_csv r of
           None \<Rightarrow> (Inl ParserError, st)
         | Some px \<Rightarrow>
             (case set_index ''ticker'' px of
                Inl err \<Rightarrow> (Inl ValueError, st)
              | Inr px \<Rightarrow> (Inr (Frame px), st)))"

text \<open>A use of the constructed client: any sequence of calls of its public operations.\<close>

datatype call =
    Get_stock_metadata string
  | Get_stock_hist tickers string string string "string list"
  | Get_stock_last tickers "string list"

fun perform :: "env \<Rightarrow> call \<Rightarrow> state \<Rightarrow> state" where
  "perform e (Get_stock_metadata ticker) st = snd (get_stock_metadata e ticker st)"
| "perform e (Get_stock_hist tickers frequency start end' columns) st =
     snd (get_stock_hist e tickers frequency start end' columns st)"
| "perform e (Get_stock_last tickers columns) st = snd (get_stock_last e tickers columns st)"

fun run :: "env \<Rightarrow> call list \<Rightarrow> state \<Rightarrow> state" where
  "run e [] st = st"
| "run e (c # cs) st = run e cs (perform e c st)"

section \<open>Reference notions\<close>

text \<open>
  The URL of a historical-prices request as the provider documents it:
  \<^verbatim>\<open><base><ticker>/prices?format=json&resampleFreq=<freq>[&columns=<csv>][&startDate=<date>][&endDate=<date>]\<close>.
  It is compared below with what the source sends, the pre-built query with the ticker
  substituted for its placeholder.
\<close>

definition hist_url :: "string \<Rightarrow> string list \<Rightarrow> string \<Rightarrow> string \<Rightarrow> string \<Rightarrow> string \<Rightarrow> string" where
  "hist_url base valid_columns frequency start end' ticker =
     base @ ticker @ ''/prices?format=json&resampleFreq='' @ frequency
       @ (if valid_columns \<noteq> [] then ''&columns='' @ join '','' valid_columns else [])
       @ (if start \<noteq> [] then ''&startDate='' @ start else [])
       @ (if end' \<noteq> [] then ''&endDate='' @ end' else [])"

text \<open>
  The table a response contributes to the result: its body read as a table and indexed
  by \<^verbatim>\<open>date\<close>; \<open>None\<close> for a response that contributes none.
\<close>

definition date_table :: "response \<Rightarrow> table option" where
  "date_table r =
     (case read_json r of
        None \<Rightarrow> None
      | Some px \<Rightarrow> (case set_index ''date'' px of Inl err \<Rightarrow> None | Inr px \<Rightarrow> Some px))"

text \<open>
  A response the retrieval loop gets past: a body that reads as a table with a
  \<^verbatim>\<open>date\<close> column, or a body that does not read as a table and is JSON.
\<close>

definition decodable :: "response \<Rightarrow> bool" where
  "decodable r \<longleftrightarrow>
     (case read_json r of
        None \<Rightarrow> json_body r \<noteq> None
      | Some px \<Rightarrow> ''date'' \<in> set (labels_of px))"

text \<open>
  An ISO 8601 calendar date in the extended format \<^verbatim>\<open>YYYY-MM-DD\<close>: ten characters,
  digits around two hyphens, a month from 01 to 12 and a day that this month of this
  year has. \<open>decimal\<close> reads a string of digits as a number.
\<close>

definition decimal :: "string \<Rightarrow> int" where
  "decimal ds = foldl (\<lambda>v c. v * 10 + digit_val c) 0 ds"

definition iso_calendar_date :: "string \<Rightarrow> bool" where
  "iso_calendar_date s \<longleftrightarrow>
     length s = 10
     \<and> list_all is_digit (take 4 s) \<and> s ! 4 = CHR ''-''
     \<and> list_all is_digit (take 2 (drop 5 s)) \<and> s ! 7 = CHR ''-''
     \<and> list_all is_digit (drop 8 s)
     \<and> 1 \<le> decimal (take 2 (drop 5 s)) \<and> decimal (take 2 (drop 5 s)) \<le> 12
     \<and> 1 \<le> decimal (drop 8 s)
     \<and> decimal (drop 8 s) \<le> days_in_month (decimal (take 4 s)) (decimal (take 2 (drop 5 s)))"

section \<open>Example inputs\<close>

text \<open>Concrete clients, providers and responses, at which the theorems below are instantiated.\<close>

definition example_state :: state where
  "example_state = \<lparr>tii_headers = [(''Content-Type'', ''application/json''), (''Authorization'', ''Token abc'')],
     requests = [], stdout = []\<rparr>"

definition not_found :: response where
  \<open>not_found = \<lparr>body = ''{"detail":"Not found."}'',
     json_body = Some (JObj [(''detail'', JStr ''Not found.'')]),
     read_json = None, read_csv = None\<rparr>\<close>

definition env_not_found :: env where
  "env_not_found = \<lparr>interpreter = Py311, provider = (\<lambda>url. not_found),
     session_headers = [(''Accept'', ''*/*'')]\<rparr>"

text \<open>
  A provider that answers every request with one row of prices, in two data columns.
\<close>

definition prices :: response where
  \<open>prices = \<lparr>body = ''[{"date":"2024-02-09","close":189,"volume":45155216}]'',
     json_body = Some (JArr [JObj [(''date'', JStr ''2024-02-09''), (''close'', JNum 189),
                                    (''volume'', JNum 45155216)]]),
     read_json = Some \<lparr>tbl_index_name = None, tbl_index = [JNum 0],
        tbl_columns = [(''date'', [JStr ''2024-02-09'']), (''close'', [JNum 189]),
                       (''volume'', [JNum 45155216])]\<rparr>,
     read_csv = None\<rparr>\<close>

definition env_prices :: env where
  "env_prices = \<lparr>interpreter = Py311, provider = (\<lambda>url. prices),
     session_headers = [(''Accept'', ''*/*'')]\<rparr>"



section \<open>Properties of column validation\<close>

lemma select_valid_eq:
  "select_valid names cols acc st =
     (acc @ filter (\<lambda>c. c \<in> set names) cols,
      st\<lparr>stdout := stdout st @ map column_warning (filter (\<lambda>c. c \<notin> set names) cols)\<rparr>)"
  by (induction cols arbitrary: acc st) (simp_all add: print_def)

text \<open>
  The function \<^verbatim>\<open>_validate_cols\<close> on its own, the first part of claim C5. For every
  endpoint identifier and every sequence of candidate columns it returns a value: for a
  recognised identifier the candidates that are in that endpoint's whitelist, in input
  order, having printed one warning for each excluded candidate and changed nothing
  else; for any other identifier the empty sequence, having printed one warning.
\<close>

theorem validate_cols_subsequence:
  "validate_cols endpoint cols st =
     (case whitelist endpoint of
        Some names \<Rightarrow>
          (filter (\<lambda>c. c \<in> set names) cols,
           st\<lparr>stdout := stdout st @ map column_warning (filter (\<lambda>c. c \<notin> set names) cols)\<rparr>)
      | None \<Rightarrow> ([], st\<lparr>stdout := stdout st @ [endpoint_warning]\<rparr>))"
  by (simp add: validate_cols_def whitelist_def select_valid_eq print_def)

section \<open>Properties of the frequency classification\<close>

lemma star_cons_iff:
  "c # w \<in> star A \<longleftrightarrow> (\<exists>u v. w = u @ v \<and> c # u \<in> A \<and> v \<in> star A)"
proof
  assume "c # w \<in> star A"
  then show "\<exists>u v. w = u @ v \<and> c # u \<in> A \<and> v \<in> star A"
  proof (induction "c # w" rule: star.induct)
    case (star_step u v)
    show ?case
    proof (cases u)
      case Nil
      with star_step show ?thesis by simp
    next
      case (Cons a u')
      with star_step.hyps show ?thesis by auto
    qed
  qed
next
  assume "\<exists>u v. w = u @ v \<and> c # u \<in> A \<and> v \<in> star A"
  then obtain u v where "w = u @ v" "c # u \<in> A" "v \<in> star A" by blast
  then show "c # w \<in> star A" using star.star_step [of "c # u" A v] by simp
qed

lemma nullable_lang: "nullable r \<longleftrightarrow> [] \<in> lang r"
  by (induction r) (auto intro: star.star_empty)


lemma lang_Seq_cons:
  "c # w \<in> lang (Seq r s) \<longleftrightarrow>
     (\<exists>u v. w = u @ v \<and> c # u \<in> lang r \<and> v \<in> lang s) \<or> ([] \<in> lang r \<and> c # w \<in> lang s)"
proof
  assume "c # w \<in> lang (Seq r s)"
  then obtain u v where uv: "c # w = u @ v" "u \<in> lang r" "v \<in> lang s" by auto
  show "(\<exists>u v. w = u @ v \<and> c # u \<in> lang r \<and> v \<in> lang s) \<or> ([] \<in> lang r \<and> c # w \<in> lang s)"
  proof (cases u)
    case Nil
    with uv show ?thesis by simp
  next
    case (Cons a u')
    with uv have "w = u' @ v" "c # u' \<in> lang r" by simp_all
    with uv(3) show ?thesis by blast
  qed
next
  assume "(\<exists>u v. w = u @ v \<and> c # u \<in> lang r \<and> v \<in> lang s) \<or> ([] \<in> lang r \<and> c # w \<in> lang s)"
  then show "c # w \<in> lang (Seq r s)"
  proof
    assume "\<exists>u v. w = u @ v \<and> c # u \<in> lang r \<and> v \<in> lang s"
    then obtain u v where "w = u @ v" "c # u \<in> lang r" "v \<in> lang s" by blast
    then have "c # w = (c # u) @ v \<and> c # u \<in> lang r \<and> v \<in> lang s" by simp
    then show ?thesis unfolding lang.simps by blast
  next
    assume "[] \<in> lang r \<and> c # w \<in> lang s"
    then have "c # w = [] @ (c # w) \<and> [] \<in> lang r \<and> c # w \<in> lang s" by simp
    then show ?thesis unfolding lang.simps by blast
  qed
qed

lemma lang_deriv: "w \<in> lang (deriv c r) \<longleftrightarrow> c # w \<in> lang r"
proof (induction r arbitrary: w)
  case Zero
  show ?case by simp
next
  case One
  show ?case by simp
next
  case (Range lo hi)
  show ?case by simp
next
  case (Seq r s)
  have "w \<in> lang (deriv c (Seq r s)) \<longleftrightarrow>
      (\<exists>u v. w = u @ v \<and> u \<in> lang (deriv c r) \<and> v \<in> lang s) \<or> (nullable r \<and> w \<in> lang (deriv c s))"
    by auto
  also have "\<dots> \<longleftrightarrow> (\<exists>u v. w = u @ v \<and> c # u \<in> lang r \<and> v \<in> lang s) \<or> ([] \<in> lang r \<and> c # w \<in> lang s)"
    by (simp only: Seq nullable_lang)
  finally show ?case by (simp only: lang_Seq_cons)
next
  case (Alt r s)
  then show ?case by simp
next
  case (Star r)
  have "w \<in> lang (deriv c (Star r)) \<longleftrightarrow> (\<exists>u v. w = u @ v \<and> u \<in> lang (deriv c r) \<and> v \<in> star (lang r))"
    by auto
  also have "\<dots> \<longleftrightarrow> (\<exists>u v. w = u @ v \<and> c # u \<in> lang r \<and> v \<in> star (lang r))"
    by (simp only: Star)
  finally show ?case by (simp only: star_cons_iff lang.simps)
qed

lemma matches_lang: "matches r w \<longleftrightarrow> w \<in> lang r"
  by (induction w arbitrary: r) (simp_all add: nullable_lang lang_deriv)

lemma star_chars: "w \<in> star {[c] | c. P c} \<longleftrightarrow> list_all P w"
proof (induction w)
  case Nil
  show ?case by (simp add: star.star_empty)
next
  case (Cons a w)
  show ?case by (auto simp: star_cons_iff Cons)
qed

lemma in_range_single: "in_range c c x \<longleftrightarrow> x = c"
proof -
  have "in_range c c x \<longleftrightarrow> (of_char x :: nat) = of_char c"
    unfolding in_range_def by arith
  then show ?thesis by simp
qed

lemma lang_lit: "lang (lit s) = {s}"
proof (induction s)
  case Nil
  show ?case by simp
next
  case (Cons c s)
  have "lang (lit (c # s)) = {u @ v | u v. u \<in> {[x] | x. in_range c c x} \<and> v \<in> lang (lit s)}"
    by simp
  also have "\<dots> = {[c] @ s}"
    unfolding Cons in_range_single by blast
  finally show ?case by simp
qed

lemma lang_digits:
  "u \<in> lang (Plus (Range (CHR ''0'') (CHR ''9''))) \<longleftrightarrow> u \<noteq> [] \<and> list_all is_digit u"
proof -
  have eq: "is_digit = in_range (CHR ''0'') (CHR ''9'')"
    by (rule ext) (simp add: is_digit_def)
  have st: "v \<in> star {[c] | c. in_range (CHR ''0'') (CHR ''9'') c} \<longleftrightarrow> list_all is_digit v" for v
    using star_chars [of v "in_range (CHR ''0'') (CHR ''9'')"] by (simp add: eq)
  show ?thesis
  proof
    assume "u \<in> lang (Plus (Range (CHR ''0'') (CHR ''9'')))"
    then obtain c v where "u = [c] @ v" "in_range (CHR ''0'') (CHR ''9'') c" "list_all is_digit v"
      by (auto simp: Plus_def st)
    then show "u \<noteq> [] \<and> list_all is_digit u" by (simp add: eq)
  next
    assume "u \<noteq> [] \<and> list_all is_digit u"
    then obtain c v where u: "u = [c] @ v" and c: "is_digit c" and v: "list_all is_digit v"
      by (cases u) auto
    have "[c] \<in> lang (Range (CHR ''0'') (CHR ''9''))" using c by (simp add: eq)
    moreover have "v \<in> lang (Star (Range (CHR ''0'') (CHR ''9'')))" using v by (simp add: st)
    ultimately show "u \<in> lang (Plus (Range (CHR ''0'') (CHR ''9'')))"
      unfolding Plus_def u lang.simps by blast
  qed
qed

lemma lang_resample_pattern:
  "w \<in> lang tii_resample_pattern \<longleftrightarrow>
     (\<exists>ds. ds \<noteq> [] \<and> list_all is_digit ds \<and> (w = ds @ ''min'' \<or> w = ds @ ''hour''))"
proof -
  have "w \<in> lang tii_resample_pattern \<longleftrightarrow>
      (\<exists>u v. w = u @ v \<and> u \<in> lang (Plus (Range (CHR ''0'') (CHR ''9''))) \<and> (v = ''min'' \<or> v = ''hour''))"
    unfolding tii_resample_pattern_def by (auto simp: lang_lit simp del: lit.simps)
  then show ?thesis unfolding lang_digits by blast
qed

lemma re_match_resample:
  "re_match tii_resample_pattern w \<longleftrightarrow>
     (\<exists>ds. ds \<noteq> [] \<and> list_all is_digit ds \<and> (w = ds @ ''min'' \<or> w = ds @ ''hour''))"
  by (simp add: re_match_def matches_lang lang_resample_pattern)

lemma re_match_examples:
  "\<not> re_match tii_resample_pattern ''daily''"
  "re_match tii_resample_pattern ''5min''" "re_match tii_resample_pattern ''4hour''"
  "\<not> re_match tii_resample_pattern ''5 min''" "\<not> re_match tii_resample_pattern ''weekly2''"
  by (simp_all add: re_match_def tii_resample_pattern_def Plus_def in_range_def)

lemma choose_endpoint_if:
  assumes "re_match tii_resample_pattern frequency \<longleftrightarrow> P"
    and "frequency \<in> set tii_resample_freqs \<longleftrightarrow> Q"
  shows "choose_endpoint frequency columns st =
     (if P
      then (Inr (tii_iex, fst (validate_cols ''iex_hist'' columns st)),
            snd (validate_cols ''iex_hist'' columns st))
      else if Q
      then (Inr (tii_eod, fst (validate_cols ''eod'' columns st)),
            snd (validate_cols ''eod'' columns st))
      else (Inl (TiingoError (invalid_frequency_msg frequency)), st))"
  unfolding choose_endpoint_def assms by (simp split: prod.splits)

lemma choose_endpoint_cases:
  "choose_endpoint frequency columns st =
     (if \<exists>ds. ds \<noteq> [] \<and> list_all is_digit ds \<and> (frequency = ds @ ''min'' \<or> frequency = ds @ ''hour'')
      then (Inr (tii_iex, fst (validate_cols ''iex_hist'' columns st)),
            snd (validate_cols ''iex_hist'' columns st))
      else if frequency = ''daily'' \<or> frequency = ''weekly'' \<or> frequency = ''monthly''
              \<or> frequency = ''annually''
      then (Inr (tii_eod, fst (validate_cols ''eod'' columns st)),
            snd (validate_cols ''eod'' columns st))
      else (Inl (TiingoError (invalid_frequency_msg frequency)), st))"
proof (rule choose_endpoint_if)
  show "re_match tii_resample_pattern frequency \<longleftrightarrow>
    (\<exists>ds. ds \<noteq> [] \<and> list_all is_digit ds \<and> (frequency = ds @ ''min'' \<or> frequency = ds @ ''hour''))"
    by (rule re_match_resample)
  show "frequency \<in> set tii_resample_freqs \<longleftrightarrow>
      frequency = ''daily'' \<or> frequency = ''weekly'' \<or> frequency = ''monthly'' \<or> frequency = ''annually''"
    by (simp add: tii_resample_freqs_def)
qed

section \<open>Properties of the validation gate\<close>

lemma select_valid_frame:
  "tii_headers (snd (select_valid names cols acc st)) = tii_headers st"
  "requests (snd (select_valid names cols acc st)) = requests st"
  by (simp_all add: select_valid_eq)

lemma validate_cols_frame:
  "tii_headers (snd (validate_cols endpoint cols st)) = tii_headers st"
  "requests (snd (validate_cols endpoint cols st)) = requests st"
  by (simp_all add: validate_cols_def select_valid_frame print_def)

lemma validate_cols_fst:
  "fst (validate_cols ''eod'' cols st) = filter (\<lambda>c. c \<in> set tii_eod_cols) cols"
  "fst (validate_cols ''iex_hist'' cols st) = filter (\<lambda>c. c \<in> set tii_iex_hist_cols) cols"
  "fst (validate_cols ''iex_last'' cols st) = filter (\<lambda>c. c \<in> set tii_iex_last_cols) cols"
  by (simp_all add: validate_cols_def select_valid_eq)

lemma choose_endpoint_frame:
  "tii_headers (snd (choose_endpoint frequency cols st)) = tii_headers st"
  "requests (snd (choose_endpoint frequency cols st)) = requests st"
  by (simp_all add: choose_endpoint_def Let_def case_prod_beta validate_cols_frame)


lemma choose_endpoint_invalid:
  "\<not> re_match tii_resample_pattern frequency \<Longrightarrow> frequency \<notin> set tii_resample_freqs \<Longrightarrow>
     choose_endpoint frequency cols st = (Inl (TiingoError (invalid_frequency_msg frequency)), st)"
  by (simp add: choose_endpoint_def)




section \<open>Properties of string replacement\<close>

lemma replace_Nil: "old \<noteq> [] \<Longrightarrow> replace [] old new = []"
  by (subst replace.simps) simp

lemma replace_hit:
  "old \<noteq> [] \<Longrightarrow> replace (old @ s) old new = new @ replace s old new"
  by (subst replace.simps) simp

lemma replace_miss:
  "old \<noteq> [] \<Longrightarrow> take (length old) (c # s) \<noteq> old \<Longrightarrow>
     replace (c # s) old new = c # replace s old new"
  by (subst replace.simps) simp

lemma replace_short:
  assumes "old \<noteq> []"
  shows "length s \<le> length old \<Longrightarrow> s \<noteq> old \<Longrightarrow> replace s old new = s"
proof (induction s)
  case Nil
  show ?case using assms by (simp add: replace_Nil)
next
  case (Cons c s)
  have "take (length old) (c # s) \<noteq> old" using Cons.prems by simp
  moreover have "replace s old new = s"
  proof (rule Cons.IH)
    show "length s \<le> length old" using Cons.prems by simp
    show "s \<noteq> old" using Cons.prems by auto
  qed
  ultimately show ?case using assms by (simp add: replace_miss)
qed

lemma replace_safe:
  assumes "old \<noteq> []" and "c \<notin> set old"
  shows "replace (a @ c # b) old new = replace a old new @ c # replace b old new"
proof (induction a rule: length_induct)
  case (1 a)
  show ?case
  proof (cases a)
    case Nil
    have "take (length old) (c # b) \<noteq> old"
    proof
      assume "take (length old) (c # b) = old"
      then have "c \<in> set old" using assms(1) by (cases old) auto
      with assms(2) show False by simp
    qed
    with Nil assms(1) show ?thesis by (simp add: replace_miss replace_Nil)
  next
    case (Cons x xs)
    show ?thesis
    proof (cases "take (length old) a = old")
      case True
      then have "length (take (length old) a) = length old" by simp
      then have len: "length old \<le> length a" by simp
      from True have a: "a = old @ drop (length old) a"
        by (metis append_take_drop_id)
      have IH: "replace (drop (length old) a @ c # b) old new
                 = replace (drop (length old) a) old new @ c # replace b old new"
        using 1 assms(1) Cons by (simp add: len)
      have "replace (a @ c # b) old new = replace (old @ (drop (length old) a @ c # b)) old new"
        using a by (metis append_assoc)
      also have "\<dots> = new @ replace (drop (length old) a @ c # b) old new"
        using assms(1) by (rule replace_hit)
      also have "\<dots> = new @ replace (drop (length old) a) old new @ c # replace b old new"
        by (simp add: IH)
      finally have whole: "replace (a @ c # b) old new
          = new @ replace (drop (length old) a) old new @ c # replace b old new" .
      have "replace a old new = replace (old @ drop (length old) a) old new"
        using a by simp
      also have "\<dots> = new @ replace (drop (length old) a) old new"
        using assms(1) by (rule replace_hit)
      finally show ?thesis using whole by simp
    next
      case False
      have miss0: "take (length old) (a @ c # b) \<noteq> old"
      proof
        assume eq: "take (length old) (a @ c # b) = old"
        show False
        proof (cases "length old \<le> length a")
          case True
          then have "take (length old) (a @ c # b) = take (length old) a"
            by simp
          with eq False show False by simp
        next
          case F: False
          then have "take (length old) (a @ c # b) = a @ take (length old - length a) (c # b)"
            by simp
          moreover have "take (length old - length a) (c # b) = c # take (length old - length a - 1) b"
            using F by (cases "length old - length a") auto
          ultimately have "old = a @ c # take (length old - length a - 1) b"
            using eq by simp
          then have "c \<in> set old" by (metis in_set_conv_decomp)
          with assms(2) show False by simp
        qed
      qed
      then have miss: "take (length old) (x # (xs @ c # b)) \<noteq> old"
        using Cons by simp
      have IH: "replace (xs @ c # b) old new = replace xs old new @ c # replace b old new"
        using 1 Cons by simp
      have "replace (a @ c # b) old new = x # replace (xs @ c # b) old new"
        using Cons replace_miss [OF assms(1) miss] by simp
      also have "\<dots> = (x # replace xs old new) @ c # replace b old new"
        by (simp add: IH)
      finally have whole: "replace (a @ c # b) old new
          = (x # replace xs old new) @ c # replace b old new" .
      have "take (length old) (x # xs) \<noteq> old" using False Cons by simp
      then have "replace a old new = x # replace xs old new"
        using Cons replace_miss [OF assms(1), of x xs new] by simp
      then show ?thesis using whole by simp
    qed
  qed
qed

lemma replace_app_safe:
  assumes "old \<noteq> []" and "replace a old new = a" and "replace b old new = b"
    and "b = [] \<or> hd b \<notin> set old"
  shows "replace (a @ b) old new = a @ b"
proof (cases b)
  case Nil
  with assms(2) show ?thesis by simp
next
  case (Cons c b')
  with assms(4) have c: "c \<notin> set old" by simp
  have "replace ([] @ c # b') old new = replace [] old new @ c # replace b' old new"
    using assms(1) c by (rule replace_safe)
  with assms(1,3) Cons have b': "replace b' old new = b'" by (simp add: replace_Nil)
  have "replace (a @ c # b') old new = replace a old new @ c # replace b' old new"
    using assms(1) c by (rule replace_safe)
  with assms(2) b' Cons show ?thesis by simp
qed

lemma replace_absent:
  assumes "old \<noteq> []" and "k \<in> set old"
  shows "k \<notin> set s \<Longrightarrow> replace s old new = s"
proof (induction s)
  case Nil
  show ?case using assms(1) by (simp add: replace_Nil)
next
  case (Cons c s)
  have "take (length old) (c # s) \<noteq> old"
  proof
    assume "take (length old) (c # s) = old"
    then have "set old \<subseteq> set (c # s)" by (metis set_take_subset)
    with assms(2) Cons.prems show False by auto
  qed
  moreover have "replace s old new = s" using Cons by simp
  ultimately show ?case using assms(1) by (simp add: replace_miss)
qed

lemma replace_no_k: "CHR ''k'' \<notin> set s \<Longrightarrow> replace s ''ticker'' new = s"
  by (rule replace_absent) simp_all

lemma digit_not_in_ticker: "is_digit c \<Longrightarrow> c \<notin> set ''ticker''"
  by (auto simp: is_digit_def in_range_def)

lemma digits_no_k: "list_all is_digit ds \<Longrightarrow> CHR ''k'' \<notin> set ds"
  by (induction ds) (auto simp: is_digit_def in_range_def)

lemma frequency_clean:
  assumes "re_match tii_resample_pattern f \<or> f \<in> set tii_resample_freqs"
  shows "replace f ''ticker'' new = f"
proof -
  from assms consider
    (intraday) ds where "list_all is_digit ds" "f = ds @ ''min'' \<or> f = ds @ ''hour''"
    | (weekly) "f = ''weekly''"
    | (other) "f = ''daily'' \<or> f = ''monthly'' \<or> f = ''annually''"
    unfolding re_match_resample by (auto simp: tii_resample_freqs_def)
  then show ?thesis
  proof cases
    case intraday
    then have "CHR ''k'' \<notin> set f" using digits_no_k [of ds] by auto
    then show ?thesis by (rule replace_no_k)
  next
    case weekly
    show ?thesis unfolding weekly by (rule replace_short) simp_all
  next
    case other
    then have "CHR ''k'' \<notin> set f" by auto
    then show ?thesis by (rule replace_no_k)
  qed
qed

lemma set_join: "set (join sep xs) \<subseteq> set sep \<union> \<Union> (set ` set xs)"
  by (induction sep xs rule: join.induct) auto

lemma columns_clean:
  assumes "set vc \<subseteq> set tii_eod_cols"
  shows "replace (join '','' vc) ''ticker'' new = join '','' vc"
proof (rule replace_no_k)
  have "\<forall>c \<in> set tii_eod_cols. CHR ''k'' \<notin> set c"
    by (simp add: tii_eod_cols_def)
  with assms have "CHR ''k'' \<notin> \<Union> (set ` set vc)" by blast
  then show "CHR ''k'' \<notin> set (join '','' vc)"
    using set_join [of "'',''" vc] by auto
qed

lemma parse_digits_Some:
  "parse_digits n s var = Some (v, p) \<Longrightarrow>
     s = take n s @ p \<and> n \<le> length s \<and> list_all is_digit (take n s)"
proof (induction n s var rule: parse_digits.induct)
  case (1 p var)
  then show ?case by simp
next
  case (2 n var)
  then show ?case by simp
next
  case (3 n c p var)
  then show ?case by (simp split: if_splits)
qed

lemma parse_digits_4:
  assumes "parse_digits 4 s 0 = Some (y, p)"
  shows "p = drop 4 s" and "4 \<le> length s" and "is_digit (s ! 3)"
proof -
  from parse_digits_Some [OF assms]
  have s: "s = take 4 s @ p" and len: "4 \<le> length s" and d: "list_all is_digit (take 4 s)"
    by simp_all
  from s show "p = drop 4 s" by (metis append_eq_conv_conj append_take_drop_id)
  from len show "4 \<le> length s" .
  from d len have "is_digit (take 4 s ! 3)" by (simp add: list_all_length)
  with len show "is_digit (s ! 3)" by simp
qed

lemma parse_digits_head:
  "parse_digits (Suc n) p 0 = Some r \<Longrightarrow> p \<noteq> [] \<and> is_digit (hd p)"
  by (cases p) (simp_all split: if_splits)

lemma starts_with_hd: "starts_with c p \<Longrightarrow> p \<noteq> [] \<and> hd p = c"
  by (cases p) (simp_all add: starts_with_def)

lemma not_t: "is_digit c \<Longrightarrow> c \<noteq> CHR ''t''"
  by (auto simp: is_digit_def in_range_def)

lemma py37_shape:
  assumes "parse_isoformat_date_py37 s = Some r"
  shows "\<exists>y p. parse_digits 4 s 0 = Some (y, p) \<and> p \<noteq> [] \<and> hd p \<noteq> CHR ''t''"
proof (cases "parse_digits 4 s 0")
  case None
  with assms show ?thesis by (simp add: parse_isoformat_date_py37_def)
next
  case (Some a)
  obtain y p where a: "a = (y, p)" by (cases a)
  have "starts_with (CHR ''-'') p"
    using assms Some a by (simp add: parse_isoformat_date_py37_def split: if_splits)
  then have "p \<noteq> [] \<and> hd p = CHR ''-''" by (rule starts_with_hd)
  with Some a show ?thesis by simp
qed

lemma py311_shape:
  assumes "parse_isoformat_date_py311 s = Some r"
  shows "\<exists>y p. parse_digits 4 s 0 = Some (y, p) \<and> p \<noteq> [] \<and> hd p \<noteq> CHR ''t''"
proof (cases "parse_digits 4 s 0")
  case None
  with assms show ?thesis by (simp add: parse_isoformat_date_py311_def)
next
  case (Some a)
  obtain y p where a: "a = (y, p)" by (cases a)
  show ?thesis
  proof (cases "starts_with (CHR ''-'') p")
    case True
    then have "p \<noteq> [] \<and> hd p = CHR ''-''" by (rule starts_with_hd)
    with Some a show ?thesis by simp
  next
    case nosep: False
    show ?thesis
    proof (cases "starts_with (CHR ''W'') p")
      case True
      then have "p \<noteq> [] \<and> hd p = CHR ''W''" by (rule starts_with_hd)
      with Some a show ?thesis by simp
    next
      case False
      have "parse_digits 2 p 0 \<noteq> None"
        using assms Some a nosep False
        by (auto simp: parse_isoformat_date_py311_def Let_def split: option.splits)
      then obtain r' where "parse_digits (Suc 1) p 0 = Some r'"
        by (auto simp: numeral_2_eq_2)
      then have "p \<noteq> [] \<and> is_digit (hd p)" by (rule parse_digits_head)
      with Some a show ?thesis using not_t by auto
    qed
  qed
qed

lemma valid_date_shape:
  assumes "is_valid_date v s" and "s \<noteq> []"
  shows "length s \<le> 10 \<and> 4 < length s \<and> is_digit (s ! 3) \<and> s ! 4 \<noteq> CHR ''t''"
proof -
  from assms have ok: "fromisoformat v s \<noteq> None"
    by (simp add: is_valid_date_def split: option.splits)
  have len: "length s \<le> 10"
    using ok by (cases v) (auto simp: fromisoformat_def split: if_splits)
  have "\<exists>r. (case v of Py37 \<Rightarrow> parse_isoformat_date_py37 s | Py311 \<Rightarrow> parse_isoformat_date_py311 s) = Some r"
    using ok by (cases v) (auto simp: fromisoformat_def split: if_splits option.splits)
  then have "\<exists>y p. parse_digits 4 s 0 = Some (y, p) \<and> p \<noteq> [] \<and> hd p \<noteq> CHR ''t''"
    by (cases v) (auto dest: py37_shape py311_shape)
  then obtain y p where p: "parse_digits 4 s 0 = Some (y, p)" "p \<noteq> []" "hd p \<noteq> CHR ''t''"
    by blast
  from parse_digits_4 [OF p(1)] have d: "p = drop 4 s" "4 \<le> length s" "is_digit (s ! 3)" .
  from d(1) p(2) have "4 < length s" by simp
  moreover from d(1) p(2) have "hd p = s ! 4" by (simp add: hd_drop_conv_nth)
  ultimately show ?thesis using len d(3) p(3) by simp
qed

lemma date_clean:
  assumes "is_valid_date v s"
  shows "replace s ''ticker'' new = s"
proof (cases "s = []")
  case True
  then show ?thesis by (simp add: replace_Nil)
next
  case False
  from valid_date_shape [OF assms False]
  have len: "length s \<le> 10" "4 < length s" and d: "is_digit (s ! 3)" and t: "s ! 4 \<noteq> CHR ''t''"
    by simp_all
  have s: "s = take 3 s @ s ! 3 # drop 4 s"
    using len id_take_nth_drop [of 3 s] by simp
  have "replace (take 3 s @ s ! 3 # drop 4 s) ''ticker'' new
      = replace (take 3 s) ''ticker'' new @ s ! 3 # replace (drop 4 s) ''ticker'' new"
    by (rule replace_safe) (simp, rule digit_not_in_ticker [OF d])
  moreover have "replace (take 3 s) ''ticker'' new = take 3 s"
  proof (rule replace_short)
    show "''ticker'' \<noteq> []" by simp
    show "length (take 3 s) \<le> length ''ticker''" by simp
    have "length (take 3 s) \<noteq> length ''ticker''" by simp
    then show "take 3 s \<noteq> ''ticker''" by metis
  qed
  moreover have "replace (drop 4 s) ''ticker'' new = drop 4 s"
  proof (rule replace_short)
    show "''ticker'' \<noteq> []" by simp
    show "length (drop 4 s) \<le> length ''ticker''" using len by simp
    have "hd (drop 4 s) = s ! 4" using len by (simp add: hd_drop_conv_nth)
    with t show "drop 4 s \<noteq> ''ticker''" by auto
  qed
  ultimately show ?thesis using s by simp
qed

section \<open>The request URL\<close>

lemma amp_piece_clean:
  assumes "replace x ''ticker'' new = x" and "CHR ''k'' \<notin> set name"
  shows "replace (CHR ''&'' # name @ CHR ''='' # x) ''ticker'' new = CHR ''&'' # name @ CHR ''='' # x"
proof -
  have "replace ((CHR ''&'' # name) @ CHR ''='' # x) ''ticker'' new
      = replace (CHR ''&'' # name) ''ticker'' new @ CHR ''='' # replace x ''ticker'' new"
    by (rule replace_safe) simp_all
  moreover have "replace (CHR ''&'' # name) ''ticker'' new = CHR ''&'' # name"
    by (rule replace_no_k) (use assms(2) in simp)
  ultimately show ?thesis using assms(1) by simp
qed

lemma query_tail_clean:
  assumes f: "re_match tii_resample_pattern frequency \<or> frequency \<in> set tii_resample_freqs"
    and c: "set vc \<subseteq> set tii_eod_cols"
    and s: "is_valid_date v start" and e: "is_valid_date v end'"
  shows "replace (''/prices?format=json&resampleFreq='' @ frequency
            @ (if vc \<noteq> [] then ''&columns='' @ join '','' vc else [])
            @ (if start \<noteq> [] then ''&startDate='' @ start else [])
            @ (if end' \<noteq> [] then ''&endDate='' @ end' else [])) ''ticker'' new
         = ''/prices?format=json&resampleFreq='' @ frequency
            @ (if vc \<noteq> [] then ''&columns='' @ join '','' vc else [])
            @ (if start \<noteq> [] then ''&startDate='' @ start else [])
            @ (if end' \<noteq> [] then ''&endDate='' @ end' else [])"
    (is "replace (?A @ frequency @ ?C @ ?S @ ?E) ''ticker'' new = _")
proof -
  have E: "replace ?E ''ticker'' new = ?E"
    using amp_piece_clean [OF date_clean [OF e], of "''endDate''" new]
    by (simp add: replace_Nil)
  have S: "replace ?S ''ticker'' new = ?S"
    using amp_piece_clean [OF date_clean [OF s], of "''startDate''" new]
    by (simp add: replace_Nil)
  have C: "replace ?C ''ticker'' new = ?C"
    using amp_piece_clean [OF columns_clean [OF c], of "''columns''" new]
    by (simp add: replace_Nil)
  have hdE: "?E = [] \<or> hd ?E \<notin> set ''ticker''" by simp
  have hdS: "?S @ ?E = [] \<or> hd (?S @ ?E) \<notin> set ''ticker''" by simp
  have hdC: "?C @ ?S @ ?E = [] \<or> hd (?C @ ?S @ ?E) \<notin> set ''ticker''" by simp
  have SE: "replace (?S @ ?E) ''ticker'' new = ?S @ ?E"
    by (rule replace_app_safe [OF _ S E hdE]) simp
  have CSE: "replace (?C @ ?S @ ?E) ''ticker'' new = ?C @ ?S @ ?E"
    by (rule replace_app_safe [OF _ C SE hdS]) simp
  have FCSE: "replace (frequency @ ?C @ ?S @ ?E) ''ticker'' new = frequency @ ?C @ ?S @ ?E"
    by (rule replace_app_safe [OF _ frequency_clean [OF f] CSE hdC]) simp
  have "replace (''/prices?format=json&resampleFreq'' @ CHR ''='' # (frequency @ ?C @ ?S @ ?E)) ''ticker'' new
      = replace ''/prices?format=json&resampleFreq'' ''ticker'' new
          @ CHR ''='' # replace (frequency @ ?C @ ?S @ ?E) ''ticker'' new"
    by (rule replace_safe) simp_all
  moreover have "replace ''/prices?format=json&resampleFreq'' ''ticker'' new
      = ''/prices?format=json&resampleFreq''"
    by (rule replace_no_k) simp
  ultimately show ?thesis using FCSE by simp
qed

lemma pre_query_replace:
  assumes b: "base = tii_eod \<or> base = tii_iex"
    and f: "re_match tii_resample_pattern frequency \<or> frequency \<in> set tii_resample_freqs"
    and c: "set vc \<subseteq> set tii_eod_cols"
    and s: "is_valid_date v start" and e: "is_valid_date v end'"
  shows "replace (build_pre_query base vc start end' frequency) ''ticker'' ticker
         = hist_url base vc frequency start end' ticker"
proof -
  let ?T = "''/prices?format=json&resampleFreq='' @ frequency
            @ (if vc \<noteq> [] then ''&columns='' @ join '','' vc else [])
            @ (if start \<noteq> [] then ''&startDate='' @ start else [])
            @ (if end' \<noteq> [] then ''&endDate='' @ end' else [])"
  obtain b0 where b0: "base = b0 @ ''/''" and k: "CHR ''k'' \<notin> set b0"
  proof (cases "base = tii_eod")
    case True
    show ?thesis
      by (rule that [of "''https://api.tiingo.com/tiingo/daily''"]) (simp_all add: True tii_eod_def)
  next
    case False
    with b have "base = tii_iex" by simp
    show ?thesis
      by (rule that [of "''https://api.tiingo.com/iex''"]) (simp_all add: \<open>base = tii_iex\<close> tii_iex_def)
  qed
  have q: "build_pre_query base vc start end' frequency = b0 @ CHR ''/'' # (''ticker'' @ ?T)"
    by (simp add: build_pre_query_def b0)
  have "replace (b0 @ CHR ''/'' # (''ticker'' @ ?T)) ''ticker'' ticker
      = replace b0 ''ticker'' ticker @ CHR ''/'' # replace (''ticker'' @ ?T) ''ticker'' ticker"
    by (rule replace_safe) simp_all
  moreover have "replace b0 ''ticker'' ticker = b0" using k by (rule replace_no_k)
  moreover have "replace (''ticker'' @ ?T) ''ticker'' ticker = ticker @ replace ?T ''ticker'' ticker"
    by (rule replace_hit) simp
  moreover have "replace ?T ''ticker'' ticker = ?T"
    by (rule query_tail_clean [OF f c s e])
  ultimately have "replace (build_pre_query base vc start end' frequency) ''ticker'' ticker
      = b0 @ CHR ''/'' # ticker @ ?T"
    unfolding q by simp
  then show ?thesis by (simp add: hist_url_def b0)
qed

section \<open>Properties of the retrieval loop\<close>

lemma set_index_cases:
  "''date'' \<in> set (labels_of px) \<Longrightarrow> \<exists>px'. set_index ''date'' px = Inr px'"
  "''date'' \<notin> set (labels_of px) \<Longrightarrow> set_index ''date'' px = Inl (KeyError ''date'')"
  by (auto simp: set_index_def labels_of_def map_of_eq_None_iff split: option.splits)

lemma fetch_headers:
  "tii_headers (snd (fetch e q s tickers data vt st)) = tii_headers st"
  by (induction tickers arbitrary: data vt st)
     (auto simp: get_def print_def split: option.splits sum.splits)

lemma fetch_ok:
  assumes "\<forall>t\<in>set tickers. decodable (provider e (replace q ''ticker'' t))"
  shows "fetch e q s tickers data vt st =
     (Inr (data @ List.map_filter (\<lambda>t. date_table (provider e (replace q ''ticker'' t))) tickers,
           vt @ filter (\<lambda>t. date_table (provider e (replace q ''ticker'' t)) \<noteq> None) tickers),
      st\<lparr>requests := requests st @ map (\<lambda>t. (replace q ''ticker'' t, s)) tickers,
         stdout := stdout st @ map (\<lambda>t. ticker_warning t (the (json_body (provider e (replace q ''ticker'' t)))))
                     (filter (\<lambda>t. read_json (provider e (replace q ''ticker'' t)) = None) tickers)\<rparr>)"
  using assms
proof (induction tickers arbitrary: data vt st)
  case Nil
  show ?case by (simp add: List.map_filter_simps)
next
  case (Cons t ts)
  let ?r = "provider e (replace q ''ticker'' t)"
  from Cons.prems have d: "decodable ?r"
    and rest: "\<forall>t\<in>set ts. decodable (provider e (replace q ''ticker'' t))" by simp_all
  show ?case
  proof (cases "read_json ?r")
    case None
    with d obtain j where j: "json_body ?r = Some j" by (auto simp: decodable_def)
    have dt: "date_table ?r = None" using None by (simp add: date_table_def)
    show ?thesis
      using None j dt Cons.IH [OF rest]
      by (simp add: get_def print_def List.map_filter_simps)
  next
    case (Some px)
    with d have "''date'' \<in> set (labels_of px)" by (simp add: decodable_def)
    then obtain px' where px': "set_index ''date'' px = Inr px'"
      using set_index_cases(1) by blast
    have dt: "date_table ?r = Some px'" using Some px' by (simp add: date_table_def)
    show ?thesis
      using Some px' dt Cons.IH [OF rest]
      by (simp add: get_def List.map_filter_simps)
  qed
qed

lemma fetch_abort:
  assumes "\<not> (\<forall>t\<in>set tickers. decodable (provider e (replace q ''ticker'' t)))"
  shows "fst (fetch e q s tickers data vt st) = Inl JSONDecodeError
         \<or> fst (fetch e q s tickers data vt st) = Inl (KeyError ''date'')"
  using assms
proof (induction tickers arbitrary: data vt st)
  case Nil
  then show ?case by simp
next
  case (Cons t ts)
  let ?r = "provider e (replace q ''ticker'' t)"
  show ?case
  proof (cases "decodable ?r")
    case True
    with Cons.prems have rest: "\<not> (\<forall>t\<in>set ts. decodable (provider e (replace q ''ticker'' t)))"
      by simp
    show ?thesis
    proof (cases "read_json ?r")
      case None
      with True obtain j where j: "json_body ?r = Some j" by (auto simp: decodable_def)
      show ?thesis using None j Cons.IH [OF rest] by (simp add: get_def)
    next
      case (Some px)
      with True have "''date'' \<in> set (labels_of px)" by (simp add: decodable_def)
      then obtain px' where px': "set_index ''date'' px = Inr px'"
        using set_index_cases(1) by blast
      show ?thesis using Some px' Cons.IH [OF rest] by (simp add: get_def)
    qed
  next
    case False
    show ?thesis
    proof (cases "read_json ?r")
      case None
      with False have "json_body ?r = None" by (simp add: decodable_def)
      with None show ?thesis by (simp add: get_def)
    next
      case (Some px)
      with False have "''date'' \<notin> set (labels_of px)" by (simp add: decodable_def)
      then have "set_index ''date'' px = Inl (KeyError ''date'')" by (rule set_index_cases(2))
      with Some show ?thesis by (simp add: get_def)
    qed
  qed
qed

lemma fetch_requests:
  "\<exists>n. n \<le> length tickers \<and> (tickers \<noteq> [] \<longrightarrow> 0 < n)
     \<and> requests (snd (fetch e q s tickers data vt st)) =
         requests st @ map (\<lambda>t. (replace q ''ticker'' t, s)) (take n tickers)"
proof (induction tickers arbitrary: data vt st)
  case Nil
  show ?case by simp
next
  case (Cons t ts)
  let ?r = "provider e (replace q ''ticker'' t)"
  let ?st = "st\<lparr>requests := requests st @ [(replace q ''ticker'' t, s)]\<rparr>"
  have stop: "requests ?st = requests st @ map (\<lambda>t. (replace q ''ticker'' t, s)) (take 1 (t # ts))"
    by simp
  have go: "\<exists>n. n \<le> length (t # ts) \<and> (t # ts \<noteq> [] \<longrightarrow> 0 < n) \<and>
      requests (snd (fetch e q s ts data' vt' st')) =
        requests st @ map (\<lambda>t. (replace q ''ticker'' t, s)) (take n (t # ts))"
    if "requests st' = requests ?st" for data' vt' st'
  proof -
    from Cons.IH [of data' vt' st'] obtain n where n: "n \<le> length ts"
      and r: "requests (snd (fetch e q s ts data' vt' st')) =
         requests st' @ map (\<lambda>t. (replace q ''ticker'' t, s)) (take n ts)" by blast
    show ?thesis
      by (rule exI [of _ "Suc n"]) (use n r that in simp)
  qed
  show ?case
  proof (cases "read_json ?r")
    case None
    show ?thesis
    proof (cases "json_body ?r")
      case N: None
      have "fetch e q s (t # ts) data vt st = (Inl JSONDecodeError, ?st)"
        using None N by (simp add: get_def)
      then show ?thesis using stop by (intro exI [of _ 1]) simp
    next
      case (Some j)
      have "fetch e q s (t # ts) data vt st = fetch e q s ts data vt (print (ticker_warning t j) ?st)"
        using None Some by (simp add: get_def)
      moreover have "requests (print (ticker_warning t j) ?st) = requests ?st" by (simp add: print_def)
      ultimately show ?thesis using go by metis
    qed
  next
    case (Some px)
    show ?thesis
    proof (cases "set_index ''date'' px")
      case (Inl err)
      have "fetch e q s (t # ts) data vt st = (Inl err, ?st)"
        using Some Inl by (simp add: get_def)
      then show ?thesis using stop by (intro exI [of _ 1]) simp
    next
      case (Inr px')
      have "fetch e q s (t # ts) data vt st = fetch e q s ts (data @ [px']) (vt @ [t]) ?st"
        using Some Inr by (simp add: get_def)
      then show ?thesis using go [of ?st] by metis
    qed
  qed
qed

section \<open>Properties of the whole call\<close>

lemma choose_endpoint_eq:
  assumes "re_match tii_resample_pattern frequency \<or> frequency \<in> set tii_resample_freqs"
    and "base = (if re_match tii_resample_pattern frequency then tii_iex else tii_eod)"
    and "names = (if re_match tii_resample_pattern frequency then tii_iex_hist_cols else tii_eod_cols)"
  shows "choose_endpoint frequency columns st =
     (Inr (base, filter (\<lambda>c. c \<in> set names) columns),
      st\<lparr>stdout := stdout st @ map column_warning (filter (\<lambda>c. c \<notin> set names) columns)\<rparr>)"
proof (cases "re_match tii_resample_pattern frequency")
  case True
  with assms(2,3) show ?thesis
    by (simp add: choose_endpoint_def validate_cols_def select_valid_eq)
next
  case False
  with assms(1) have "frequency \<in> set tii_resample_freqs" by simp
  with False assms(2,3) show ?thesis
    by (simp add: choose_endpoint_def validate_cols_def select_valid_eq)
qed

lemma whitelisted_eod:
  assumes "names = (if re_match tii_resample_pattern frequency then tii_iex_hist_cols else tii_eod_cols)"
  shows "set (filter (\<lambda>c. c \<in> set names) columns) \<subseteq> set tii_eod_cols"
  using assms by (auto simp: tii_iex_hist_cols_def tii_eod_cols_def)

lemma get_stock_hist_unfold:
  assumes f: "re_match tii_resample_pattern frequency \<or> frequency \<in> set tii_resample_freqs"
    and s: "is_valid_date (interpreter e) start" and e: "is_valid_date (interpreter e) end'"
    and base: "base = (if re_match tii_resample_pattern frequency then tii_iex else tii_eod)"
    and names: "names = (if re_match tii_resample_pattern frequency then tii_iex_hist_cols else tii_eod_cols)"
    and st': "st' = st\<lparr>stdout := stdout st @ map column_warning (filter (\<lambda>c. c \<notin> set names) columns)\<rparr>"
    and q: "q = build_pre_query base (filter (\<lambda>c. c \<in> set names) columns) start end' frequency"
    and h: "hs = dict_update (session_headers e) (tii_headers st)"
  shows "get_stock_hist e tickers frequency start end' columns st =
     (case fetch e q hs (as_list tickers) [] [] st' of
        (Inl err, st) \<Rightarrow> (Inl err, st)
      | (Inr (data, valid_tickers), st) \<Rightarrow> (compose columns data valid_tickers, st))"
  unfolding get_stock_hist_def choose_endpoint_eq [OF f base names] using s e
  by (simp add: Let_def st' q h)

lemma hist_query_url:
  assumes f: "re_match tii_resample_pattern frequency \<or> frequency \<in> set tii_resample_freqs"
    and s: "is_valid_date v start" and e: "is_valid_date v end'"
    and base: "base = (if re_match tii_resample_pattern frequency then tii_iex else tii_eod)"
    and names: "names = (if re_match tii_resample_pattern frequency then tii_iex_hist_cols else tii_eod_cols)"
  shows "replace (build_pre_query base (filter (\<lambda>c. c \<in> set names) columns) start end' frequency) ''ticker'' t
         = hist_url base (filter (\<lambda>c. c \<in> set names) columns) frequency start end' t"
proof (rule pre_query_replace [OF _ f whitelisted_eod [OF names] s e])
  show "base = tii_eod \<or> base = tii_iex" using base by simp
qed

lemma get_stock_hist_ok:
  assumes f: "re_match tii_resample_pattern frequency \<or> frequency \<in> set tii_resample_freqs"
    and s: "is_valid_date (interpreter e) start" and e: "is_valid_date (interpreter e) end'"
    and base: "base = (if re_match tii_resample_pattern frequency then tii_iex else tii_eod)"
    and names: "names = (if re_match tii_resample_pattern frequency then tii_iex_hist_cols else tii_eod_cols)"
    and url: "url = hist_url base (filter (\<lambda>c. c \<in> set names) columns) frequency start end'"
    and dec: "\<forall>t\<in>set (as_list tickers). decodable (provider e (url t))"
  shows "get_stock_hist e tickers frequency start end' columns st =
     (compose columns
        (List.map_filter (\<lambda>t. date_table (provider e (url t))) (as_list tickers))
        (filter (\<lambda>t. date_table (provider e (url t)) \<noteq> None) (as_list tickers)),
      st\<lparr>requests := requests st
            @ map (\<lambda>t. (url t, dict_update (session_headers e) (tii_headers st))) (as_list tickers),
         stdout := stdout st @ map column_warning (filter (\<lambda>c. c \<notin> set names) columns)
            @ map (\<lambda>t. ticker_warning t (the (json_body (provider e (url t)))))
                (filter (\<lambda>t. read_json (provider e (url t)) = None) (as_list tickers))\<rparr>)"
proof -
  define q where "q = build_pre_query base (filter (\<lambda>c. c \<in> set names) columns) start end' frequency"
  have u: "replace q ''ticker'' t = url t" for t
    unfolding q_def url by (rule hist_query_url [OF f s e base names])
  have u': "(\<lambda>t. replace q ''ticker'' t) = url" by (rule ext) (rule u)
  have dec': "\<forall>t\<in>set (as_list tickers). decodable (provider e (replace q ''ticker'' t))"
    using dec by (simp add: u)
  show ?thesis
    unfolding get_stock_hist_unfold [OF f s e base names refl q_def refl] fetch_ok [OF dec']
    by (simp add: u)
qed

lemma get_stock_hist_abort:
  assumes f: "re_match tii_resample_pattern frequency \<or> frequency \<in> set tii_resample_freqs"
    and s: "is_valid_date (interpreter e) start" and e: "is_valid_date (interpreter e) end'"
    and base: "base = (if re_match tii_resample_pattern frequency then tii_iex else tii_eod)"
    and names: "names = (if re_match tii_resample_pattern frequency then tii_iex_hist_cols else tii_eod_cols)"
    and url: "url = hist_url base (filter (\<lambda>c. c \<in> set names) columns) frequency start end'"
    and dec: "\<not> (\<forall>t\<in>set (as_list tickers). decodable (provider e (url t)))"
  shows "fst (get_stock_hist e tickers frequency start end' columns st) = Inl JSONDecodeError
         \<or> fst (get_stock_hist e tickers frequency start end' columns st) = Inl (KeyError ''date'')"
proof -
  define q where "q = build_pre_query base (filter (\<lambda>c. c \<in> set names) columns) start end' frequency"
  define st' where "st' = st\<lparr>stdout := stdout st @ map column_warning (filter (\<lambda>c. c \<notin> set names) columns)\<rparr>"
  define hs where "hs = dict_update (session_headers e) (tii_headers st)"
  have u: "replace q ''ticker'' t = url t" for t
    unfolding q_def url by (rule hist_query_url [OF f s e base names])
  have dec': "\<not> (\<forall>t\<in>set (as_list tickers). decodable (provider e (replace q ''ticker'' t)))"
    using dec by (simp add: u)
  have "fst (fetch e q hs (as_list tickers) [] [] st') = Inl JSONDecodeError
      \<or> fst (fetch e q hs (as_list tickers) [] [] st') = Inl (KeyError ''date'')"
    by (rule fetch_abort [OF dec'])
  then show ?thesis
    unfolding get_stock_hist_unfold [OF f s e base names st'_def q_def hs_def]
    by (auto split: prod.splits sum.splits)
qed

lemma get_stock_hist_requests:
  assumes f: "re_match tii_resample_pattern frequency \<or> frequency \<in> set tii_resample_freqs"
    and s: "is_valid_date (interpreter e) start" and e: "is_valid_date (interpreter e) end'"
    and base: "base = (if re_match tii_resample_pattern frequency then tii_iex else tii_eod)"
    and names: "names = (if re_match tii_resample_pattern frequency then tii_iex_hist_cols else tii_eod_cols)"
    and url: "url = hist_url base (filter (\<lambda>c. c \<in> set names) columns) frequency start end'"
  shows "\<exists>n. n \<le> length (as_list tickers) \<and> (as_list tickers \<noteq> [] \<longrightarrow> 0 < n)
     \<and> requests (snd (get_stock_hist e tickers frequency start end' columns st)) =
         requests st @ map (\<lambda>t. (url t, dict_update (session_headers e) (tii_headers st)))
                         (take n (as_list tickers))"
proof -
  define q where "q = build_pre_query base (filter (\<lambda>c. c \<in> set names) columns) start end' frequency"
  define st' where "st' = st\<lparr>stdout := stdout st @ map column_warning (filter (\<lambda>c. c \<notin> set names) columns)\<rparr>"
  define hs where "hs = dict_update (session_headers e) (tii_headers st)"
  have u: "replace q ''ticker'' t = url t" for t
    unfolding q_def url by (rule hist_query_url [OF f s e base names])
  have snd_eq: "snd (get_stock_hist e tickers frequency start end' columns st)
      = snd (fetch e q hs (as_list tickers) [] [] st')"
    unfolding get_stock_hist_unfold [OF f s e base names st'_def q_def hs_def]
    by (auto split: prod.splits sum.splits)
  have r: "requests st' = requests st" by (simp add: st'_def)
  from fetch_requests [of "as_list tickers" e q hs "[]" "[]" st']
  show ?thesis unfolding snd_eq r u hs_def .
qed

lemma get_stock_hist_headers:
  "tii_headers (snd (get_stock_hist e tickers frequency start end' columns st)) = tii_headers st"
proof -
  have a: "tii_headers (snd (choose_endpoint frequency columns st)) = tii_headers st"
    by (rule choose_endpoint_frame)
  show ?thesis
  proof (cases "choose_endpoint frequency columns st")
    case (Pair r st')
    with a have h: "tii_headers st' = tii_headers st" by simp
    show ?thesis
    proof (cases r)
      case (Inl err)
      with Pair show ?thesis by (simp add: get_stock_hist_def h)
    next
      case (Inr p)
      obtain ep vc where p: "p = (ep, vc)" by (cases p)
      have "tii_headers (snd (fetch e q hs (as_list tickers) [] [] st')) = tii_headers st" for q hs
        by (simp add: fetch_headers h)
      then have "fetch e q hs (as_list tickers) [] [] st' = (x, st'') \<Longrightarrow> tii_headers st'' = tii_headers st"
        for q hs x st''
        by (metis snd_conv)
      then show ?thesis
        using Pair Inr p h
        by (auto simp: get_stock_hist_def Let_def split: prod.splits sum.splits)
    qed
  qed
qed

section \<open>The frequency classification of a call\<close>

lemma hist_requests_intraday:
  assumes c: "\<exists>ds. ds \<noteq> [] \<and> list_all is_digit ds \<and> (frequency = ds @ ''min'' \<or> frequency = ds @ ''hour'')"
    and s: "is_valid_date (interpreter e) start" and e: "is_valid_date (interpreter e) end'"
  shows "\<exists>n. n \<le> length (as_list tickers) \<and> (as_list tickers \<noteq> [] \<longrightarrow> 0 < n)
     \<and> requests (snd (get_stock_hist e tickers frequency start end' columns st)) =
         requests st @ map (\<lambda>t. (hist_url tii_iex (filter (\<lambda>c. c \<in> set tii_iex_hist_cols) columns)
                                     frequency start end' t,
                                  dict_update (session_headers e) (tii_headers st)))
                         (take n (as_list tickers))"
proof -
  from c have m: "re_match tii_resample_pattern frequency" by (simp add: re_match_resample)
  show ?thesis
    by (rule get_stock_hist_requests [OF _ s e]) (simp_all add: m)
qed

lemma hist_requests_eod:
  assumes c: "\<not> (\<exists>ds. ds \<noteq> [] \<and> list_all is_digit ds \<and> (frequency = ds @ ''min'' \<or> frequency = ds @ ''hour''))"
    and d: "frequency = ''daily'' \<or> frequency = ''weekly'' \<or> frequency = ''monthly'' \<or> frequency = ''annually''"
    and s: "is_valid_date (interpreter e) start" and e: "is_valid_date (interpreter e) end'"
  shows "\<exists>n. n \<le> length (as_list tickers) \<and> (as_list tickers \<noteq> [] \<longrightarrow> 0 < n)
     \<and> requests (snd (get_stock_hist e tickers frequency start end' columns st)) =
         requests st @ map (\<lambda>t. (hist_url tii_eod (filter (\<lambda>c. c \<in> set tii_eod_cols) columns)
                                     frequency start end' t,
                                  dict_update (session_headers e) (tii_headers st)))
                         (take n (as_list tickers))"
proof -
  from c have m: "\<not> re_match tii_resample_pattern frequency" by (simp add: re_match_resample)
  from d have f: "frequency \<in> set tii_resample_freqs" by (auto simp: tii_resample_freqs_def)
  show ?thesis
    by (rule get_stock_hist_requests [OF _ s e]) (simp_all add: m f)
qed

lemma hist_invalid_frequency:
  assumes c: "\<not> (\<exists>ds. ds \<noteq> [] \<and> list_all is_digit ds \<and> (frequency = ds @ ''min'' \<or> frequency = ds @ ''hour''))"
    and d: "\<not> (frequency = ''daily'' \<or> frequency = ''weekly'' \<or> frequency = ''monthly'' \<or> frequency = ''annually'')"
  shows "get_stock_hist e tickers frequency start end' columns st =
           (Inl (TiingoError (invalid_frequency_msg frequency)), st)"
proof -
  from c have m: "\<not> re_match tii_resample_pattern frequency" by (simp add: re_match_resample)
  from d have f: "frequency \<notin> set tii_resample_freqs" by (simp add: tii_resample_freqs_def)
  show ?thesis by (simp add: get_stock_hist_def choose_endpoint_invalid [OF m f])
qed

lemma hist_invalid_examples:
  "get_stock_hist e tickers ''5 min'' start end' columns st =
     (Inl (TiingoError (invalid_frequency_msg ''5 min'')), st)"
  "get_stock_hist e tickers ''weekly2'' start end' columns st =
     (Inl (TiingoError (invalid_frequency_msg ''weekly2'')), st)"
  by (simp_all add: get_stock_hist_def choose_endpoint_def re_match_examples tii_resample_freqs_def)

lemma prefix_one:
  assumes "\<exists>n. n \<le> length [t] \<and> ([t] \<noteq> [] \<longrightarrow> 0 < n) \<and> rs = pre @ map f (take n [t])"
  shows "rs = pre @ [f t]"
proof -
  from assms obtain n where "n \<le> 1" "0 < n" and r: "rs = pre @ map f (take n [t])" by auto
  then have "n = 1" by simp
  with r show ?thesis by simp
qed

text \<open>
  Claim C3. \<^verbatim>\<open>get_stock_hist\<close> puts its frequency token in exactly one of three classes.
  A token made of one or more decimal digits followed by \<^verbatim>\<open>min\<close> or \<^verbatim>\<open>hour\<close> (the
  whole-string matches of \<^verbatim>\<open>[0-9]+(min|hour)\<close>) selects the intraday base URL and
  validates the columns against the intraday-historical whitelist; otherwise one of
  \<^verbatim>\<open>daily\<close>, \<^verbatim>\<open>weekly\<close>, \<^verbatim>\<open>monthly\<close>, \<^verbatim>\<open>annually\<close> selects the end-of-day base URL
  and the end-of-day whitelist; every other token raises \<^verbatim>\<open>TiingoError\<close> with a message
  that lists the valid values, the state untouched. \<^verbatim>\<open>daily\<close> goes to end-of-day,
  \<^verbatim>\<open>5min\<close> and \<^verbatim>\<open>4hour\<close> to intraday, and \<^verbatim>\<open>5 min\<close> and \<^verbatim>\<open>weekly2\<close> are invalid.
  This holds of the classifying block and of the call: with valid dates, the requests of
  a call with an intraday token are those of the intraday URL with the columns of the
  intraday-historical whitelist, for the tickers up to the one at which the loop stops
  (the first, at least); those of a call with a fixed token are those of the end-of-day
  URL with the columns of the end-of-day whitelist; and a call with any other token
  returns the error and leaves the state as it was.
\<close>

theorem frequency_classification:
  "choose_endpoint frequency columns st =
     (if \<exists>ds. ds \<noteq> [] \<and> list_all is_digit ds \<and> (frequency = ds @ ''min'' \<or> frequency = ds @ ''hour'')
      then (Inr (tii_iex, fst (validate_cols ''iex_hist'' columns st)),
            snd (validate_cols ''iex_hist'' columns st))
      else if frequency = ''daily'' \<or> frequency = ''weekly'' \<or> frequency = ''monthly''
              \<or> frequency = ''annually''
      then (Inr (tii_eod, fst (validate_cols ''eod'' columns st)),
            snd (validate_cols ''eod'' columns st))
      else (Inl (TiingoError (invalid_frequency_msg frequency)), st))
   \<and> fst (choose_endpoint ''daily'' columns st) = Inr (tii_eod, fst (validate_cols ''eod'' columns st))
   \<and> fst (choose_endpoint ''5min'' columns st) = Inr (tii_iex, fst (validate_cols ''iex_hist'' columns st))
   \<and> fst (choose_endpoint ''4hour'' columns st) = Inr (tii_iex, fst (validate_cols ''iex_hist'' columns st))
   \<and> choose_endpoint ''5 min'' columns st = (Inl (TiingoError (invalid_frequency_msg ''5 min'')), st)
   \<and> choose_endpoint ''weekly2'' columns st = (Inl (TiingoError (invalid_frequency_msg ''weekly2'')), st)
   \<and> invalid_frequency_msg frequency =
       [Str (''Invalid resample frequency: '' @ [CHR 0x22] @ frequency @ [CHR 0x22] @ ''.''
          @ [CHR 0x0A, CHR 0x09] @ ''Valid values:'' @ [CHR 0x0A, CHR 0x09]
          @ '' - End of day data: ('' @ [CHR 0x27] @ ''daily'' @ [CHR 0x27] @ '', ''
          @ [CHR 0x27] @ ''weekly'' @ [CHR 0x27] @ '', '' @ [CHR 0x27] @ ''monthly'' @ [CHR 0x27]
          @ '', '' @ [CHR 0x27] @ ''annually'' @ [CHR 0x27] @ '')'' @ [CHR 0x0A, CHR 0x09]
          @ '' - Intraday data: 5min, 15min, 1hour, 4hour, etc.'')]
   \<and> ((\<exists>ds. ds \<noteq> [] \<and> list_all is_digit ds \<and> (frequency = ds @ ''min'' \<or> frequency = ds @ ''hour''))
        \<and> is_valid_date (interpreter e) start \<and> is_valid_date (interpreter e) end' \<longrightarrow>
        (\<exists>n. n \<le> length (as_list tickers) \<and> (as_list tickers \<noteq> [] \<longrightarrow> 0 < n)
           \<and> requests (snd (get_stock_hist e tickers frequency start end' columns st)) =
               requests st @ map (\<lambda>t. (hist_url tii_iex (filter (\<lambda>c. c \<in> set tii_iex_hist_cols) columns)
                                           frequency start end' t,
                                        dict_update (session_headers e) (tii_headers st)))
                               (take n (as_list tickers))))
   \<and> (\<not> (\<exists>ds. ds \<noteq> [] \<and> list_all is_digit ds \<and> (frequency = ds @ ''min'' \<or> frequency = ds @ ''hour''))
        \<and> (frequency = ''daily'' \<or> frequency = ''weekly'' \<or> frequency = ''monthly''
              \<or> frequency = ''annually'')
        \<and> is_valid_date (interpreter e) start \<and> is_valid_date (interpreter e) end' \<longrightarrow>
        (\<exists>n. n \<le> length (as_list tickers) \<and> (as_list tickers \<noteq> [] \<longrightarrow> 0 < n)
           \<and> requests (snd (get_stock_hist e tickers frequency start end' columns st)) =
               requests st @ map (\<lambda>t. (hist_url tii_eod (filter (\<lambda>c. c \<in> set tii_eod_cols) columns)
                                           frequency start end' t,
                                        dict_update (session_headers e) (tii_headers st)))
                               (take n (as_list tickers))))
   \<and> (\<not> (\<exists>ds. ds \<noteq> [] \<and> list_all is_digit ds \<and> (frequency = ds @ ''min'' \<or> frequency = ds @ ''hour''))
        \<and> \<not> (frequency = ''daily'' \<or> frequency = ''weekly'' \<or> frequency = ''monthly''
              \<or> frequency = ''annually'') \<longrightarrow>
        get_stock_hist e tickers frequency start end' columns st =
          (Inl (TiingoError (invalid_frequency_msg frequency)), st))
   \<and> get_stock_hist e tickers ''5 min'' start end' columns st =
        (Inl (TiingoError (invalid_frequency_msg ''5 min'')), st)
   \<and> get_stock_hist e tickers ''weekly2'' start end' columns st =
        (Inl (TiingoError (invalid_frequency_msg ''weekly2'')), st)"
proof -
  have daily: "fst (choose_endpoint ''daily'' columns st) = Inr (tii_eod, fst (validate_cols ''eod'' columns st))"
    by (simp add: choose_endpoint_def re_match_examples tii_resample_freqs_def split: prod.splits)
  have min5: "fst (choose_endpoint ''5min'' columns st) = Inr (tii_iex, fst (validate_cols ''iex_hist'' columns st))"
    by (simp add: choose_endpoint_def re_match_examples split: prod.splits)
  have hour4: "fst (choose_endpoint ''4hour'' columns st) = Inr (tii_iex, fst (validate_cols ''iex_hist'' columns st))"
    by (simp add: choose_endpoint_def re_match_examples split: prod.splits)
  have spaced: "choose_endpoint ''5 min'' columns st = (Inl (TiingoError (invalid_frequency_msg ''5 min'')), st)"
    by (simp add: choose_endpoint_def re_match_examples tii_resample_freqs_def)
  have weekly2: "choose_endpoint ''weekly2'' columns st = (Inl (TiingoError (invalid_frequency_msg ''weekly2'')), st)"
    by (simp add: choose_endpoint_def re_match_examples tii_resample_freqs_def)
  have msg: "invalid_frequency_msg frequency =
       [Str (''Invalid resample frequency: '' @ [CHR 0x22] @ frequency @ [CHR 0x22] @ ''.''
          @ [CHR 0x0A, CHR 0x09] @ ''Valid values:'' @ [CHR 0x0A, CHR 0x09]
          @ '' - End of day data: ('' @ [CHR 0x27] @ ''daily'' @ [CHR 0x27] @ '', ''
          @ [CHR 0x27] @ ''weekly'' @ [CHR 0x27] @ '', '' @ [CHR 0x27] @ ''monthly'' @ [CHR 0x27]
          @ '', '' @ [CHR 0x27] @ ''annually'' @ [CHR 0x27] @ '')'' @ [CHR 0x0A, CHR 0x09]
          @ '' - Intraday data: 5min, 15min, 1hour, 4hour, etc.'')]"
    by (simp add: invalid_frequency_msg_def str_tuple_def tii_resample_freqs_def)
  show ?thesis
    apply (intro conjI impI)
              apply (rule choose_endpoint_cases)
             apply (rule daily)
            apply (rule min5)
           apply (rule hour4)
          apply (rule spaced)
         apply (rule weekly2)
        apply (rule msg)
       apply (erule conjE)+
       apply (rule hist_requests_intraday, assumption+)
      apply (erule conjE)+
      apply (rule hist_requests_eod, assumption+)
     apply (erule conjE)
     apply (rule hist_invalid_frequency, assumption+)
    apply (rule hist_invalid_examples(1))
    apply (rule hist_invalid_examples(2))
    done
qed

theorem frequency_classification_witness:
  "map fst (requests (snd (get_stock_hist env_not_found (Ticker ''AAPL'') ''5min'' [] []
       [''close'', ''adjClose''] example_state)))
     = [''https://api.tiingo.com/iex/AAPL/prices?format=json&resampleFreq=5min&columns=close'']
   \<and> map fst (requests (snd (get_stock_hist env_not_found (Ticker ''AAPL'') ''4hour'' [] []
       [''close'', ''adjClose''] example_state)))
     = [''https://api.tiingo.com/iex/AAPL/prices?format=json&resampleFreq=4hour&columns=close'']
   \<and> map fst (requests (snd (get_stock_hist env_not_found (Ticker ''AAPL'') ''daily'' [] []
       [''close'', ''adjClose''] example_state)))
     = [''https://api.tiingo.com/tiingo/daily/AAPL/prices?format=json&resampleFreq=daily&columns=close,adjClose'']
   \<and> get_stock_hist env_not_found (Ticker ''AAPL'') ''15 min'' [] [] [''close'', ''adjClose''] example_state
     = (Inl (TiingoError (invalid_frequency_msg ''15 min'')), example_state)"
proof -
  have v: "is_valid_date (interpreter env_not_found) []"
    by (simp add: is_valid_date_def)
  have l: "as_list (Ticker ''AAPL'') = [''AAPL'']" by (simp add: as_list_def)
  have r0: "requests example_state = []" by (simp add: example_state_def)
  have i1: "\<exists>ds. ds \<noteq> [] \<and> list_all is_digit ds \<and> (''5min'' = ds @ ''min'' \<or> ''5min'' = ds @ ''hour'')"
    by (rule exI [of _ "''5''"]) (simp add: is_digit_def in_range_def)
  have i2: "\<exists>ds. ds \<noteq> [] \<and> list_all is_digit ds \<and> (''4hour'' = ds @ ''min'' \<or> ''4hour'' = ds @ ''hour'')"
    by (rule exI [of _ "''4''"]) (simp add: is_digit_def in_range_def)
  have i3: "\<not> (\<exists>ds. ds \<noteq> [] \<and> list_all is_digit ds \<and> (''daily'' = ds @ ''min'' \<or> ''daily'' = ds @ ''hour''))"
    using re_match_examples(1) by (simp only: re_match_resample not_False_eq_True)
  have i4: "\<not> (\<exists>ds. ds \<noteq> [] \<and> list_all is_digit ds \<and> (''15 min'' = ds @ ''min'' \<or> ''15 min'' = ds @ ''hour''))"
  proof -
    have "\<not> re_match tii_resample_pattern ''15 min''"
      by (simp add: re_match_def tii_resample_pattern_def Plus_def in_range_def)
    then show ?thesis by (simp only: re_match_resample not_False_eq_True)
  qed
  note a = frequency_classification [where frequency = "''5min''" and e = env_not_found
      and start = "[]" and end' = "[]" and tickers = "Ticker ''AAPL''"
      and columns = "[''close'', ''adjClose'']" and st = example_state]
  note b = frequency_classification [where frequency = "''4hour''" and e = env_not_found
      and start = "[]" and end' = "[]" and tickers = "Ticker ''AAPL''"
      and columns = "[''close'', ''adjClose'']" and st = example_state]
  note c = frequency_classification [where frequency = "''daily''" and e = env_not_found
      and start = "[]" and end' = "[]" and tickers = "Ticker ''AAPL''"
      and columns = "[''close'', ''adjClose'']" and st = example_state]
  note d = frequency_classification [where frequency = "''15 min''" and e = env_not_found
      and start = "[]" and end' = "[]" and tickers = "Ticker ''AAPL''"
      and columns = "[''close'', ''adjClose'']" and st = example_state]
  note a8 = a [THEN conjunct2, THEN conjunct2, THEN conjunct2, THEN conjunct2, THEN conjunct2,
      THEN conjunct2, THEN conjunct2, THEN conjunct1, rule_format, OF conjI [OF i1 conjI [OF v v]]]
  note b8 = b [THEN conjunct2, THEN conjunct2, THEN conjunct2, THEN conjunct2, THEN conjunct2,
      THEN conjunct2, THEN conjunct2, THEN conjunct1, rule_format, OF conjI [OF i2 conjI [OF v v]]]
  have d3: "''daily'' = ''daily'' \<or> ''daily'' = ''weekly'' \<or> ''daily'' = ''monthly'' \<or> ''daily'' = ''annually''"
    by simp
  note c9 = c [THEN conjunct2, THEN conjunct2, THEN conjunct2, THEN conjunct2, THEN conjunct2,
      THEN conjunct2, THEN conjunct2, THEN conjunct2, THEN conjunct1, rule_format,
      OF conjI [OF i3 conjI [OF d3 conjI [OF v v]]]]
  have d4: "\<not> (''15 min'' = ''daily'' \<or> ''15 min'' = ''weekly'' \<or> ''15 min'' = ''monthly'' \<or> ''15 min'' = ''annually'')"
    by simp
  note d10 = d [THEN conjunct2, THEN conjunct2, THEN conjunct2, THEN conjunct2, THEN conjunct2,
      THEN conjunct2, THEN conjunct2, THEN conjunct2, THEN conjunct2, THEN conjunct1, rule_format,
      OF conjI [OF i4 d4]]
  have hs: "filter (\<lambda>c. c \<in> set tii_iex_hist_cols) [''close'', ''adjClose''] = [''close'']"
    "filter (\<lambda>c. c \<in> set tii_eod_cols) [''close'', ''adjClose''] = [''close'', ''adjClose'']"
    by (simp_all add: tii_iex_hist_cols_def tii_eod_cols_def)
  have a': "map fst (requests (snd (get_stock_hist env_not_found (Ticker ''AAPL'') ''5min'' [] []
       [''close'', ''adjClose''] example_state)))
     = [''https://api.tiingo.com/iex/AAPL/prices?format=json&resampleFreq=5min&columns=close'']"
    by (simp add: prefix_one [OF a8 [unfolded l hs r0]] hist_url_def tii_iex_def)
  have b': "map fst (requests (snd (get_stock_hist env_not_found (Ticker ''AAPL'') ''4hour'' [] []
       [''close'', ''adjClose''] example_state)))
     = [''https://api.tiingo.com/iex/AAPL/prices?format=json&resampleFreq=4hour&columns=close'']"
    by (simp add: prefix_one [OF b8 [unfolded l hs r0]] hist_url_def tii_iex_def)
  have c': "map fst (requests (snd (get_stock_hist env_not_found (Ticker ''AAPL'') ''daily'' [] []
       [''close'', ''adjClose''] example_state)))
     = [''https://api.tiingo.com/tiingo/daily/AAPL/prices?format=json&resampleFreq=daily&columns=close,adjClose'']"
    by (simp add: prefix_one [OF c9 [unfolded l hs r0]] hist_url_def tii_eod_def)
  show ?thesis
    apply (intro conjI)
       apply (rule a')
      apply (rule b')
     apply (rule c')
    apply (rule d10)
    done
qed

section \<open>An invalid column name in a call\<close>

lemma date_table_decodable:
  assumes "date_table r = Some px"
  shows "decodable r"
proof (cases "read_json r")
  case None
  with assms show ?thesis by (simp add: date_table_def)
next
  case (Some raw)
  have "''date'' \<in> set (labels_of raw)"
  proof (rule ccontr)
    assume "''date'' \<notin> set (labels_of raw)"
    then have "set_index ''date'' raw = Inl (KeyError ''date'')" by (rule set_index_cases(2))
    with Some assms show False by (simp add: date_table_def)
  qed
  with Some show ?thesis by (simp add: decodable_def)
qed

lemma length_concat_labels:
  assumes "\<forall>px\<in>set data. 1 < length (tbl_columns px)"
  shows "2 * length data \<le> length (concat (map labels_of data))"
  using assms by (induction data) (auto simp: labels_of_def)

lemma map_filter_all:
  assumes "\<forall>t\<in>set ts. \<exists>px. f t = Some px \<and> P px"
  shows "length (List.map_filter f ts) = length ts \<and> (\<forall>px\<in>set (List.map_filter f ts). P px)
         \<and> filter (\<lambda>t. f t \<noteq> None) ts = ts"
  using assms by (induction ts) (auto simp: List.map_filter_simps)

text \<open>
  Claim C5, its last sentence, read of the call that validates the columns. The claim is
  that one bad column name never aborts the call. \<^verbatim>\<open>get_stock_hist\<close> chooses the shape of
  its result by the length of the list of columns as the caller gave it, not of the
  validated list (line 241). So a call for several tickers with a single column name
  that the whitelist excludes sends its requests without a \<^verbatim>\<open>columns\<close> component, and
  when each answer is a table of two or more data columns, labelling the columns of
  their side-by-side concatenation with the tickers raises \<^verbatim>\<open>ValueError\<close>: the call is
  aborted after its requests. The instance below is
  \<^verbatim>\<open>get_stock_hist(["AAPL", "MSFT"], "daily", columns=["Close"])\<close>.
\<close>

theorem invalid_column_aborts:
  assumes f: "re_match tii_resample_pattern frequency \<or> frequency \<in> set tii_resample_freqs"
    and s: "is_valid_date (interpreter e) start" and e: "is_valid_date (interpreter e) end'"
    and bad: "column \<notin> set (if re_match tii_resample_pattern frequency then tii_iex_hist_cols else tii_eod_cols)"
    and several: "1 < length (as_list tickers)"
    and full: "\<forall>t\<in>set (as_list tickers).
        \<exists>px. date_table (provider e
                 (hist_url (if re_match tii_resample_pattern frequency then tii_iex else tii_eod) []
                    frequency start end' t)) = Some px
             \<and> 1 < length (tbl_columns px)"
  shows "fst (get_stock_hist e tickers frequency start end' [column] st) = Inl ValueError
       \<and> map fst (requests (snd (get_stock_hist e tickers frequency start end' [column] st))) =
           map fst (requests st)
           @ map (hist_url (if re_match tii_resample_pattern frequency then tii_iex else tii_eod) []
                    frequency start end') (as_list tickers)"
proof -
  define base where "base = (if re_match tii_resample_pattern frequency then tii_iex else tii_eod)"
  define names where "names = (if re_match tii_resample_pattern frequency then tii_iex_hist_cols else tii_eod_cols)"
  define url where "url = hist_url base [] frequency start end'"
  define data where "data = List.map_filter (\<lambda>t. date_table (provider e (url t))) (as_list tickers)"
  have vc: "filter (\<lambda>c. c \<in> set names) [column] = []" using bad by (simp add: names_def)
  have url': "url = hist_url base (filter (\<lambda>c. c \<in> set names) [column]) frequency start end'"
    by (simp only: url_def vc)
  from full have full': "\<forall>t\<in>set (as_list tickers).
      \<exists>px. date_table (provider e (url t)) = Some px \<and> 1 < length (tbl_columns px)"
    by (simp add: url_def base_def)
  then have dec: "\<forall>t\<in>set (as_list tickers). decodable (provider e (url t))"
    using date_table_decodable by blast
  from map_filter_all [OF full'] have len: "length data = length (as_list tickers)"
    and cols: "\<forall>px\<in>set data. 1 < length (tbl_columns px)"
    and vt: "filter (\<lambda>t. date_table (provider e (url t)) \<noteq> None) (as_list tickers) = as_list tickers"
    by (simp_all add: data_def)
  have "2 * length data \<le> length (concat (map labels_of data))"
    by (rule length_concat_labels [OF cols])
  with len several have ne: "length (as_list tickers) \<noteq> length (concat (map labels_of data))"
    by simp
  from len several have n0: "length data \<noteq> 0" and n1: "length data \<noteq> 1" by auto
  have c: "compose [column] data (as_list tickers) = Inl ValueError"
    using n0 n1 ne by (simp add: compose_def concat_axis1_def)
  note ok = get_stock_hist_ok [OF f s e base_def names_def url' dec, where st = st]
  show ?thesis
    unfolding ok vt data_def [symmetric] c
    by (simp add: url_def base_def comp_def)
qed

theorem invalid_column_aborts_witness:
  "fst (get_stock_hist env_prices (Tickers [''AAPL'', ''MSFT'']) ''daily'' [] [] [''Close'']
          example_state) = Inl ValueError
   \<and> map fst (requests (snd (get_stock_hist env_prices (Tickers [''AAPL'', ''MSFT'']) ''daily'' [] []
          [''Close''] example_state))) =
       [''https://api.tiingo.com/tiingo/daily/AAPL/prices?format=json&resampleFreq=daily'',
        ''https://api.tiingo.com/tiingo/daily/MSFT/prices?format=json&resampleFreq=daily'']
   \<and> fst (validate_cols ''eod'' [''Close''] example_state) = []"
proof -
  have m: "\<not> re_match tii_resample_pattern ''daily''" by (rule re_match_examples(1))
  have f: "re_match tii_resample_pattern ''daily'' \<or> ''daily'' \<in> set tii_resample_freqs"
    by (simp add: tii_resample_freqs_def)
  have v: "is_valid_date (interpreter env_prices) []" by (simp add: is_valid_date_def)
  have bad: "''Close'' \<notin> set (if re_match tii_resample_pattern ''daily'' then tii_iex_hist_cols else tii_eod_cols)"
    by (simp add: m tii_eod_cols_def)
  have l: "as_list (Tickers [''AAPL'', ''MSFT'']) = [''AAPL'', ''MSFT'']" by (simp add: as_list_def)
  have several: "1 < length (as_list (Tickers [''AAPL'', ''MSFT'']))" by (simp add: l)
  have dt: "date_table prices = Some \<lparr>tbl_index_name = Some ''date'', tbl_index = [JStr ''2024-02-09''],
        tbl_columns = [(''close'', [JNum 189]), (''volume'', [JNum 45155216])]\<rparr>"
    by (simp add: date_table_def prices_def set_index_def)
  have full: "\<forall>t\<in>set (as_list (Tickers [''AAPL'', ''MSFT''])).
        \<exists>px. date_table (provider env_prices
                 (hist_url (if re_match tii_resample_pattern ''daily'' then tii_iex else tii_eod) []
                    ''daily'' [] [] t)) = Some px
             \<and> 1 < length (tbl_columns px)"
    by (simp add: env_prices_def dt)
  have r0: "requests example_state = []" by (simp add: example_state_def)
  have w: "fst (validate_cols ''eod'' [''Close''] example_state) = []"
    by (simp add: validate_cols_fst tii_eod_cols_def)
  note t = invalid_column_aborts [OF f v v bad several full, of example_state]
  have u: "map (hist_url (if re_match tii_resample_pattern ''daily'' then tii_iex else tii_eod) []
                    ''daily'' [] []) (as_list (Tickers [''AAPL'', ''MSFT''])) =
       [''https://api.tiingo.com/tiingo/daily/AAPL/prices?format=json&resampleFreq=daily'',
        ''https://api.tiingo.com/tiingo/daily/MSFT/prices?format=json&resampleFreq=daily'']"
    by (simp add: m l hist_url_def tii_eod_def)
  show ?thesis
    apply (intro conjI)
      apply (rule t [THEN conjunct1])
     apply (rule trans [OF t [THEN conjunct2]])
     apply (simp only: r0 u list.map append_Nil)
    apply (rule w)
    done
qed

section \<open>Properties of date validation\<close>

lemma parse_digits_1e:
  "parse_digits 1 (a # p) v = (if is_digit a then Some (v * 10 + digit_val a, p) else None)"
  by simp

lemma parse_digits_2e:
  "parse_digits 2 (a # b # p) v =
     (if is_digit a \<and> is_digit b then Some ((v * 10 + digit_val a) * 10 + digit_val b, p) else None)"
  by (simp add: numeral_2_eq_2)

lemma parse_digits_4e:
  "parse_digits 4 (a # b # c # d # p) v =
     (if is_digit a \<and> is_digit b \<and> is_digit c \<and> is_digit d
      then Some ((((v * 10 + digit_val a) * 10 + digit_val b) * 10 + digit_val c) * 10 + digit_val d, p)
      else None)"
proof -
  have "parse_digits (Suc (Suc (Suc (Suc 0)))) (a # b # c # d # p) v =
     (if is_digit a \<and> is_digit b \<and> is_digit c \<and> is_digit d
      then Some ((((v * 10 + digit_val a) * 10 + digit_val b) * 10 + digit_val c) * 10 + digit_val d, p)
      else None)"
    by simp
  moreover have "(4::nat) = Suc (Suc (Suc (Suc 0)))" by simp
  ultimately show ?thesis by (simp only:)
qed

lemma length_10:
  assumes "length s = 10"
  obtains a b c d s1 e f s2 g h where "s = [a, b, c, d, s1, e, f, s2, g, h]"
proof -
  from assms have "length s = Suc (Suc (Suc (Suc (Suc (Suc (Suc (Suc (Suc (Suc 0)))))))))" by simp
  then obtain a b c d s1 e f s2 g h where "s = [a, b, c, d, s1, e, f, s2, g, h]"
    by (auto simp: length_Suc_conv)
  then show ?thesis by (rule that)
qed

lemma digit_val_range: "is_digit c \<Longrightarrow> 0 \<le> digit_val c \<and> digit_val c \<le> 9"
  by (auto simp: is_digit_def in_range_def digit_val_def)

lemma not_W: "is_digit c \<Longrightarrow> c \<noteq> CHR ''W''"
  by (auto simp: is_digit_def in_range_def)

lemma year_le_9999:
  assumes "is_digit a" "is_digit b" "is_digit c" "is_digit d"
  shows "((digit_val a * 10 + digit_val b) * 10 + digit_val c) * 10 + digit_val d \<le> 9999"
  using assms [THEN digit_val_range] by simp

lemma new_date_iff:
  "new_date (y, m, d) \<noteq> None \<longleftrightarrow>
     1 \<le> y \<and> y \<le> 9999 \<and> 1 \<le> m \<and> m \<le> 12 \<and> 1 \<le> d \<and> d \<le> days_in_month y m"
  by (auto simp: new_date_def)

lemma new_date_ex:
  "(\<exists>dt. new_date (y, m, d) = Some dt) \<longleftrightarrow>
     1 \<le> y \<and> y \<le> 9999 \<and> 1 \<le> m \<and> m \<le> 12 \<and> 1 \<le> d \<and> d \<le> days_in_month y m"
  using new_date_iff [of y m d] by auto

lemma py37_explicit:
  "parse_isoformat_date_py37 [a, b, c, d, s1, e, f, s2, g, h] =
     (if is_digit a \<and> is_digit b \<and> is_digit c \<and> is_digit d \<and> s1 = CHR ''-''
         \<and> is_digit e \<and> is_digit f \<and> s2 = CHR ''-'' \<and> is_digit g \<and> is_digit h
      then Some (((digit_val a * 10 + digit_val b) * 10 + digit_val c) * 10 + digit_val d,
                 digit_val e * 10 + digit_val f, digit_val g * 10 + digit_val h)
      else None)"
  by (simp add: parse_isoformat_date_py37_def parse_digits_4e parse_digits_2e starts_with_def)

lemma py311_explicit:
  assumes "is_digit a" "is_digit b" "is_digit c" "is_digit d"
    "is_digit e" "is_digit f" "is_digit g" "is_digit h"
  shows "parse_isoformat_date_py311 [a, b, c, d, CHR ''-'', e, f, CHR ''-'', g, h] =
      Some (((digit_val a * 10 + digit_val b) * 10 + digit_val c) * 10 + digit_val d,
                 digit_val e * 10 + digit_val f, digit_val g * 10 + digit_val h)"
  using assms not_W [OF assms(5)]
  by (simp add: parse_isoformat_date_py311_def parse_digits_4e parse_digits_2e starts_with_def)

lemma iso_explicit:
  "iso_calendar_date [a, b, c, d, s1, e, f, s2, g, h] \<longleftrightarrow>
     is_digit a \<and> is_digit b \<and> is_digit c \<and> is_digit d \<and> s1 = CHR ''-''
     \<and> is_digit e \<and> is_digit f \<and> s2 = CHR ''-'' \<and> is_digit g \<and> is_digit h
     \<and> 1 \<le> digit_val e * 10 + digit_val f \<and> digit_val e * 10 + digit_val f \<le> 12
     \<and> 1 \<le> digit_val g * 10 + digit_val h
     \<and> digit_val g * 10 + digit_val h
         \<le> days_in_month (((digit_val a * 10 + digit_val b) * 10 + digit_val c) * 10 + digit_val d)
              (digit_val e * 10 + digit_val f)"
  by (auto simp: iso_calendar_date_def decimal_def)

lemma year_explicit:
  "decimal (take 4 [a, b, c, d, s1, e, f, s2, g, h]) =
     ((digit_val a * 10 + digit_val b) * 10 + digit_val c) * 10 + digit_val d"
  by (simp add: decimal_def)

lemma valid_date_py37:
  assumes "s \<noteq> []"
  shows "is_valid_date Py37 s \<longleftrightarrow> iso_calendar_date s \<and> 1 \<le> decimal (take 4 s)"
proof (cases "length s = 10")
  case False
  then show ?thesis using assms by (simp add: is_valid_date_def fromisoformat_def iso_calendar_date_def)
next
  case True
  then obtain a b c d s1 e f s2 g h where s: "s = [a, b, c, d, s1, e, f, s2, g, h]"
    by (rule length_10)
  have "is_valid_date Py37 s \<longleftrightarrow>
      (case parse_isoformat_date_py37 s of None \<Rightarrow> False | Some ymd \<Rightarrow> new_date ymd \<noteq> None)"
    using assms True by (simp add: is_valid_date_def fromisoformat_def split: option.splits)
  also have "\<dots> \<longleftrightarrow> iso_calendar_date s \<and> 1 \<le> decimal (take 4 s)"
    unfolding s py37_explicit iso_explicit year_explicit
    using year_le_9999 [of a b c d]
    by (auto simp: new_date_ex)
  finally show ?thesis .
qed

lemma valid_date_py311:
  assumes "iso_calendar_date s" and "1 \<le> decimal (take 4 s)"
  shows "is_valid_date Py311 s"
proof -
  from assms(1) have "length s = 10" by (simp add: iso_calendar_date_def)
  then obtain a b c d s1 e f s2 g h where s: "s = [a, b, c, d, s1, e, f, s2, g, h]"
    by (rule length_10)
  from assms(1) have i: "is_digit a" "is_digit b" "is_digit c" "is_digit d" "s1 = CHR ''-''"
     "is_digit e" "is_digit f" "s2 = CHR ''-''" "is_digit g" "is_digit h"
     "1 \<le> digit_val e * 10 + digit_val f" "digit_val e * 10 + digit_val f \<le> 12"
     "1 \<le> digit_val g * 10 + digit_val h"
     "digit_val g * 10 + digit_val h
         \<le> days_in_month (((digit_val a * 10 + digit_val b) * 10 + digit_val c) * 10 + digit_val d)
              (digit_val e * 10 + digit_val f)"
    unfolding s iso_explicit by simp_all
  from assms(2) have y: "1 \<le> ((digit_val a * 10 + digit_val b) * 10 + digit_val c) * 10 + digit_val d"
    unfolding s year_explicit .
  have p: "parse_isoformat_date_py311 s =
      Some (((digit_val a * 10 + digit_val b) * 10 + digit_val c) * 10 + digit_val d,
                 digit_val e * 10 + digit_val f, digit_val g * 10 + digit_val h)"
    unfolding s i(5) i(8) by (rule py311_explicit) (rule i)+
  have n: "new_date (((digit_val a * 10 + digit_val b) * 10 + digit_val c) * 10 + digit_val d,
                 digit_val e * 10 + digit_val f, digit_val g * 10 + digit_val h) \<noteq> None"
    unfolding new_date_iff using i y year_le_9999 [of a b c d] by simp
  from n obtain dt where "new_date (((digit_val a * 10 + digit_val b) * 10 + digit_val c) * 10 + digit_val d,
                 digit_val e * 10 + digit_val f, digit_val g * 10 + digit_val h) = Some dt"
    by blast
  with p have "fromisoformat Py311 s = Some dt"
    using \<open>length s = 10\<close> by (simp add: fromisoformat_def)
  then show ?thesis by (simp add: is_valid_date_def)
qed

lemma digit_chars:
  "is_digit (CHR ''0'')" "is_digit (CHR ''1'')" "is_digit (CHR ''2'')" "is_digit (CHR ''3'')"
  "is_digit (CHR ''4'')" "is_digit (CHR ''5'')" "is_digit (CHR ''6'')" "is_digit (CHR ''7'')"
  "is_digit (CHR ''8'')" "is_digit (CHR ''9'')"
  "digit_val (CHR ''0'') = 0" "digit_val (CHR ''1'') = 1" "digit_val (CHR ''2'') = 2"
  "digit_val (CHR ''3'') = 3" "digit_val (CHR ''4'') = 4" "digit_val (CHR ''5'') = 5"
  "digit_val (CHR ''6'') = 6" "digit_val (CHR ''7'') = 7" "digit_val (CHR ''8'') = 8"
  "digit_val (CHR ''9'') = 9"
  by (simp_all add: is_digit_def in_range_def digit_val_def)

lemma february_2024: "days_in_month 2024 2 = 29" "days_in_month 2024 1 = 31"
  by (simp_all add: days_in_month_def is_leap_def days_in_month_tab_def)

lemma iso_examples:
  "iso_calendar_date ''2024-02-10''" "\<not> iso_calendar_date ''2024-02-30''"
  "iso_calendar_date ''2024-01-02''" "\<not> iso_calendar_date ''20240210''"
  "1 \<le> decimal (take 4 ''2024-02-10'')" "1 \<le> decimal (take 4 ''2024-01-02'')"
  "iso_calendar_date ''0000-01-01''" "\<not> 1 \<le> decimal (take 4 ''0000-01-01'')"
       apply (simp add: iso_explicit digit_chars february_2024)
      apply (simp add: iso_explicit digit_chars february_2024)
     apply (simp add: iso_explicit digit_chars february_2024)
    apply (simp add: iso_calendar_date_def)
      apply (simp add: decimal_def digit_chars)
     apply (simp add: decimal_def digit_chars)
   apply (simp add: iso_explicit digit_chars days_in_month_def is_leap_def days_in_month_tab_def)
  apply (simp add: decimal_def digit_chars)
  done

lemma py311_basic:
  "is_valid_date Py311 ''20240210''"
proof -
  have "parse_isoformat_date_py311 ''20240210'' = Some (2024, 2, 10)"
    by (simp add: parse_isoformat_date_py311_def parse_digits_4e parse_digits_2e starts_with_def
        digit_chars)
  moreover have "new_date (2024, 2, 10) = Some (Date 2024 2 10)"
    by (simp add: new_date_def february_2024)
  ultimately have "fromisoformat Py311 ''20240210'' = Some (Date 2024 2 10)"
    by (simp add: fromisoformat_def)
  then show ?thesis by (simp add: is_valid_date_def)
qed

lemma py311_february_30:
  "\<not> is_valid_date Py311 ''2024-02-30''"
proof -
  have "parse_isoformat_date_py311 ''2024-02-30'' = Some (2024, 2, 30)"
    by (simp add: py311_explicit digit_chars)
  moreover have "new_date (2024, 2, 30) = None"
    by (simp add: new_date_def february_2024)
  ultimately have "fromisoformat Py311 ''2024-02-30'' = None"
    by (simp add: fromisoformat_def)
  then show ?thesis by (simp add: is_valid_date_def)
qed

lemma py311_year_0:
  "\<not> is_valid_date Py311 ''0000-01-01''"
proof -
  have "parse_isoformat_date_py311 ''0000-01-01'' = Some (0, 1, 1)"
    by (simp add: py311_explicit digit_chars)
  moreover have "new_date (0, 1, 1) = None"
    by (simp add: new_date_def)
  ultimately have "fromisoformat Py311 ''0000-01-01'' = None"
    by (simp add: fromisoformat_def)
  then show ?thesis by (simp add: is_valid_date_def)
qed

lemma date_examples:
  "is_valid_date v []"
  "is_valid_date v ''2024-02-10''"
  "\<not> is_valid_date v ''2024-02-30''"
  "is_valid_date v ''2024-01-02''"
proof -
  show "is_valid_date v []" by (simp add: is_valid_date_def)
  show "is_valid_date v ''2024-02-10''"
    using valid_date_py37 [of "''2024-02-10''"] valid_date_py311 [of "''2024-02-10''"] iso_examples(1,5)
    by (cases v) simp_all
  show "\<not> is_valid_date v ''2024-02-30''"
    using valid_date_py37 [of "''2024-02-30''"] iso_examples(2) py311_february_30
    by (cases v) simp_all
  show "is_valid_date v ''2024-01-02''"
    using valid_date_py37 [of "''2024-01-02''"] valid_date_py311 [of "''2024-01-02''"] iso_examples(3,6)
    by (cases v) simp_all
qed

text \<open>
  Claim C4 as stated fails: from Python 3.11 on the basic format \<^verbatim>\<open>20240210\<close>, which is
  not of the form \<^verbatim>\<open>YYYY-MM-DD\<close>, is accepted; and on every version the calendar date
  \<^verbatim>\<open>0000-01-01\<close> is rejected, the years of \<^verbatim>\<open>date\<close> starting at 1.
\<close>

theorem basic_format_accepted:
  "is_valid_date Py311 ''20240210'' \<and> \<not> iso_calendar_date ''20240210''
   \<and> iso_calendar_date ''0000-01-01'' \<and> \<not> is_valid_date Py37 ''0000-01-01''
   \<and> \<not> is_valid_date Py311 ''0000-01-01''"
proof -
  have "\<not> is_valid_date Py37 ''0000-01-01''"
    using valid_date_py37 [of "''0000-01-01''"] iso_examples(8) by simp
  then show ?thesis
    using py311_basic iso_examples(4,7) py311_year_0 by (intro conjI)
qed

text \<open>
  Claim C4, as amended. \<^verbatim>\<open>_is_valid_date\<close> is true of the empty string, and of a
  non-empty string exactly when \<^verbatim>\<open>date.fromisoformat\<close> of the running interpreter accepts
  it. Up to Python 3.10 these are exactly the strings \<^verbatim>\<open>YYYY-MM-DD\<close> that are a calendar
  date of a year from 0001 on; from Python 3.11 on all of these are still accepted.
  On every version \<^verbatim>\<open>2024-02-30\<close> is rejected and \<^verbatim>\<open>2024-02-10\<close> is accepted.
\<close>

theorem valid_date_by_interpreter:
  "is_valid_date v []
   \<and> (s \<noteq> [] \<longrightarrow> (is_valid_date v s \<longleftrightarrow> fromisoformat v s \<noteq> None))
   \<and> (s \<noteq> [] \<longrightarrow> (is_valid_date Py37 s \<longleftrightarrow> iso_calendar_date s \<and> 1 \<le> decimal (take 4 s)))
   \<and> (iso_calendar_date s \<and> 1 \<le> decimal (take 4 s) \<longrightarrow> is_valid_date Py311 s)
   \<and> \<not> is_valid_date v ''2024-02-30''
   \<and> is_valid_date v ''2024-02-10''"
proof -
  have a: "s \<noteq> [] \<longrightarrow> (is_valid_date v s \<longleftrightarrow> fromisoformat v s \<noteq> None)"
    by (simp add: is_valid_date_def split: option.splits)
  have b: "s \<noteq> [] \<longrightarrow> (is_valid_date Py37 s \<longleftrightarrow> iso_calendar_date s \<and> 1 \<le> decimal (take 4 s))"
    using valid_date_py37 [of s] by blast
  have c: "iso_calendar_date s \<and> 1 \<le> decimal (take 4 s) \<longrightarrow> is_valid_date Py311 s"
    using valid_date_py311 [of s] by blast
  show ?thesis
    apply (intro conjI)
         apply (rule date_examples(1))
        apply (rule a)
       apply (rule b)
      apply (rule c)
     apply (rule date_examples(3))
    apply (rule date_examples(2))
    done
qed

theorem valid_date_by_interpreter_witness:
  "is_valid_date Py37 ''2024-01-02'' \<and> is_valid_date Py311 ''2024-01-02''
   \<and> iso_calendar_date ''2024-01-02'' \<and> decimal (take 4 ''2024-01-02'') = 2024"
proof -
  note t = valid_date_by_interpreter [of Py37 "''2024-01-02''"]
  have ne: "''2024-01-02'' \<noteq> []" by simp
  have i: "iso_calendar_date ''2024-01-02'' \<and> 1 \<le> decimal (take 4 ''2024-01-02'')"
    using iso_examples(3,6) by (rule conjI)
  have a: "is_valid_date Py37 ''2024-01-02''"
    using t [THEN conjunct2, THEN conjunct2, THEN conjunct1, THEN mp, OF ne] i by (rule iffD2)
  have b: "is_valid_date Py311 ''2024-01-02''"
    using t [THEN conjunct2, THEN conjunct2, THEN conjunct2, THEN conjunct1] i by (rule mp)
  have y: "decimal (take 4 ''2024-01-02'') = 2024" by (simp add: decimal_def digit_chars)
  show ?thesis
    apply (intro conjI)
       apply (rule a)
      apply (rule b)
     apply (rule iso_examples(3))
    apply (rule y)
    done
qed

section \<open>The requests of a call\<close>

lemma pre_query_placeholder:
  "build_pre_query base vc start end' frequency = hist_url base vc frequency start end' ''ticker''"
  by (simp add: build_pre_query_def hist_url_def)

text \<open>
  Claim C7. In a call of \<^verbatim>\<open>get_stock_hist\<close> with a valid frequency and valid dates, the
  requests issued are, in the order of the input tickers, those of the URL
  \<^verbatim>\<open><base><ticker>/prices?format=json&resampleFreq=<frequency>\<close>, followed by
  \<^verbatim>\<open>&columns=<csv>\<close> of the requested columns that are in the whitelist when there is one,
  by \<^verbatim>\<open>&startDate=<start>\<close> when \<open>start\<close> is not empty and by \<^verbatim>\<open>&endDate=<end>\<close> when \<open>end\<close>
  is not empty: for the tickers up to the one at which the loop stops, and for every
  ticker when every response can be decoded. The pre-built query is this URL at the
  placeholder \<^verbatim>\<open>ticker\<close>, and replacing the placeholder by a ticker gives the URL at that
  ticker: nothing else in the query changes. Only whitelisted columns are in the URL.
\<close>

theorem hist_request_urls:
  assumes f: "re_match tii_resample_pattern frequency \<or> frequency \<in> set tii_resample_freqs"
    and s: "is_valid_date (interpreter e) start" and e: "is_valid_date (interpreter e) end'"
    and base: "base = (if re_match tii_resample_pattern frequency then tii_iex else tii_eod)"
    and names: "names = (if re_match tii_resample_pattern frequency then tii_iex_hist_cols else tii_eod_cols)"
    and vc: "valid_columns = filter (\<lambda>c. c \<in> set names) columns"
  shows "(\<exists>n. n \<le> length (as_list tickers) \<and> (as_list tickers \<noteq> [] \<longrightarrow> 0 < n)
          \<and> requests (snd (get_stock_hist e tickers frequency start end' columns st)) =
              requests st @ map (\<lambda>t. (hist_url base valid_columns frequency start end' t,
                                       dict_update (session_headers e) (tii_headers st)))
                              (take n (as_list tickers)))
       \<and> ((\<forall>t\<in>set (as_list tickers).
              decodable (provider e (hist_url base valid_columns frequency start end' t))) \<longrightarrow>
            requests (snd (get_stock_hist e tickers frequency start end' columns st)) =
              requests st @ map (\<lambda>t. (hist_url base valid_columns frequency start end' t,
                                       dict_update (session_headers e) (tii_headers st)))
                              (as_list tickers))
       \<and> (\<forall>t. hist_url base valid_columns frequency start end' t =
              base @ t @ ''/prices?format=json&resampleFreq='' @ frequency
                @ (if valid_columns \<noteq> [] then ''&columns='' @ join '','' valid_columns else [])
                @ (if start \<noteq> [] then ''&startDate='' @ start else [])
                @ (if end' \<noteq> [] then ''&endDate='' @ end' else []))
       \<and> build_pre_query base valid_columns start end' frequency =
            hist_url base valid_columns frequency start end' ''ticker''
       \<and> (\<forall>t. replace (build_pre_query base valid_columns start end' frequency) ''ticker'' t =
              hist_url base valid_columns frequency start end' t)
       \<and> set valid_columns \<subseteq> set names"
proof -
  have url: "hist_url base valid_columns frequency start end'
      = hist_url base (filter (\<lambda>c. c \<in> set names) columns) frequency start end'"
    by (simp only: vc)
  have a: "\<exists>n. n \<le> length (as_list tickers) \<and> (as_list tickers \<noteq> [] \<longrightarrow> 0 < n)
          \<and> requests (snd (get_stock_hist e tickers frequency start end' columns st)) =
              requests st @ map (\<lambda>t. (hist_url base valid_columns frequency start end' t,
                                       dict_update (session_headers e) (tii_headers st)))
                              (take n (as_list tickers))"
    by (rule get_stock_hist_requests [OF f s e base names url])
  have b: "requests (snd (get_stock_hist e tickers frequency start end' columns st)) =
              requests st @ map (\<lambda>t. (hist_url base valid_columns frequency start end' t,
                                       dict_update (session_headers e) (tii_headers st)))
                              (as_list tickers)"
    if "\<forall>t\<in>set (as_list tickers).
              decodable (provider e (hist_url base valid_columns frequency start end' t))"
    unfolding get_stock_hist_ok [OF f s e base names url that] by simp
  have c: "hist_url base valid_columns frequency start end' t =
              base @ t @ ''/prices?format=json&resampleFreq='' @ frequency
                @ (if valid_columns \<noteq> [] then ''&columns='' @ join '','' valid_columns else [])
                @ (if start \<noteq> [] then ''&startDate='' @ start else [])
                @ (if end' \<noteq> [] then ''&endDate='' @ end' else [])" for t
    by (simp add: hist_url_def)
  have d: "replace (build_pre_query base valid_columns start end' frequency) ''ticker'' t =
              hist_url base valid_columns frequency start end' t" for t
    unfolding vc by (rule hist_query_url [OF f s e base names])
  have g: "set valid_columns \<subseteq> set names" by (auto simp: vc)
  show ?thesis
    apply (intro conjI allI impI)
         apply (rule a)
        apply (erule b)
       apply (rule c)
      apply (rule pre_query_placeholder)
     apply (rule d)
    apply (rule g)
    done
qed

theorem hist_request_urls_witness:
  "requests (snd (get_stock_hist env_prices (Tickers [''AAPL'', ''MSFT'']) ''daily''
       ''2024-01-02'' ''2024-02-10'' [''close'', ''Volume''] example_state)) =
     [(''https://api.tiingo.com/tiingo/daily/AAPL/prices?format=json&resampleFreq=daily&columns=close&startDate=2024-01-02&endDate=2024-02-10'',
       [(''Accept'', ''*/*''), (''Content-Type'', ''application/json''), (''Authorization'', ''Token abc'')]),
      (''https://api.tiingo.com/tiingo/daily/MSFT/prices?format=json&resampleFreq=daily&columns=close&startDate=2024-01-02&endDate=2024-02-10'',
       [(''Accept'', ''*/*''), (''Content-Type'', ''application/json''), (''Authorization'', ''Token abc'')])]
   \<and> replace ''https://api.tiingo.com/tiingo/daily/ticker/prices?format=json&resampleFreq=daily&columns=close&startDate=2024-01-02&endDate=2024-02-10''
         ''ticker'' ''AAPL'' =
       ''https://api.tiingo.com/tiingo/daily/AAPL/prices?format=json&resampleFreq=daily&columns=close&startDate=2024-01-02&endDate=2024-02-10''"
proof -
  have m: "\<not> re_match tii_resample_pattern ''daily''" by (rule re_match_examples(1))
  have f: "re_match tii_resample_pattern ''daily'' \<or> ''daily'' \<in> set tii_resample_freqs"
    by (simp add: tii_resample_freqs_def)
  have s: "is_valid_date (interpreter env_prices) ''2024-01-02''" by (rule date_examples(4))
  have e: "is_valid_date (interpreter env_prices) ''2024-02-10''" by (rule date_examples(2))
  have base: "tii_eod = (if re_match tii_resample_pattern ''daily'' then tii_iex else tii_eod)"
    by (simp add: m)
  have names: "tii_eod_cols = (if re_match tii_resample_pattern ''daily'' then tii_iex_hist_cols else tii_eod_cols)"
    by (simp add: m)
  have vc: "[''close''] = filter (\<lambda>c. c \<in> set tii_eod_cols) [''close'', ''Volume'']"
    by (simp add: tii_eod_cols_def)
  note t = hist_request_urls [OF f s e base names vc, where tickers = "Tickers [''AAPL'', ''MSFT'']"
      and st = example_state]
  have l: "as_list (Tickers [''AAPL'', ''MSFT'']) = [''AAPL'', ''MSFT'']" by (simp add: as_list_def)
  have dec: "\<forall>t\<in>set (as_list (Tickers [''AAPL'', ''MSFT''])).
      decodable (provider env_prices (hist_url tii_eod [''close''] ''daily'' ''2024-01-02'' ''2024-02-10'' t))"
    by (simp add: env_prices_def decodable_def prices_def labels_of_def)
  have hs: "dict_update (session_headers env_prices) (tii_headers example_state) =
      [(''Accept'', ''*/*''), (''Content-Type'', ''application/json''), (''Authorization'', ''Token abc'')]"
    by (simp add: env_prices_def example_state_def)
  have r0: "requests example_state = []" by (simp add: example_state_def)
  have u: "hist_url tii_eod [''close''] ''daily'' ''2024-01-02'' ''2024-02-10'' t =
      ''https://api.tiingo.com/tiingo/daily/'' @ t @ ''/prices?format=json&resampleFreq=daily&columns=close&startDate=2024-01-02&endDate=2024-02-10''" for t
    by (simp add: hist_url_def tii_eod_def)
  have q: "build_pre_query tii_eod [''close''] ''2024-01-02'' ''2024-02-10'' ''daily'' =
      ''https://api.tiingo.com/tiingo/daily/ticker/prices?format=json&resampleFreq=daily&columns=close&startDate=2024-01-02&endDate=2024-02-10''"
    by (simp add: build_pre_query_def tii_eod_def)
  have a: "requests (snd (get_stock_hist env_prices (Tickers [''AAPL'', ''MSFT'']) ''daily''
       ''2024-01-02'' ''2024-02-10'' [''close'', ''Volume''] example_state)) =
     [(''https://api.tiingo.com/tiingo/daily/AAPL/prices?format=json&resampleFreq=daily&columns=close&startDate=2024-01-02&endDate=2024-02-10'',
       [(''Accept'', ''*/*''), (''Content-Type'', ''application/json''), (''Authorization'', ''Token abc'')]),
      (''https://api.tiingo.com/tiingo/daily/MSFT/prices?format=json&resampleFreq=daily&columns=close&startDate=2024-01-02&endDate=2024-02-10'',
       [(''Accept'', ''*/*''), (''Content-Type'', ''application/json''), (''Authorization'', ''Token abc'')])]"
    unfolding t [THEN conjunct2, THEN conjunct1, THEN mp, OF dec] l hs r0 u by simp
  have b: "replace ''https://api.tiingo.com/tiingo/daily/ticker/prices?format=json&resampleFreq=daily&columns=close&startDate=2024-01-02&endDate=2024-02-10''
         ''ticker'' ''AAPL'' =
       ''https://api.tiingo.com/tiingo/daily/AAPL/prices?format=json&resampleFreq=daily&columns=close&startDate=2024-01-02&endDate=2024-02-10''"
    using t [THEN conjunct2, THEN conjunct2, THEN conjunct2, THEN conjunct2, THEN conjunct1,
        THEN spec, of "''AAPL''"]
    unfolding q u by simp
  show ?thesis
    apply (rule conjI)
     apply (rule a)
    apply (rule b)
    done
qed

section \<open>The composition of the result\<close>











end
